theory Spec2Isabelle
  imports Complex_Main "HOL-Library.Multiset"
begin

section \<open>Python values shared by the four program versions\<close>

text \<open>
  A Python \<open>dict\<close> is an association list in insertion order.  Looking a key up reads the
  first pair with that key; storing to a key overwrites that pair in place or, when the
  key is new, appends a pair at the end.  A dictionary of the program never holds a key
  twice, which is the predicate \<open>dict_ok\<close>.
\<close>

type_synonym ('k, 'v) pydict = "('k \<times> 'v) list"

type_synonym dict = "(string, int) pydict"

datatype error = IndexError | ZeroDivisionError

definition dict_ok :: "('k, 'v) pydict \<Rightarrow> bool" where
  "dict_ok d = distinct (map fst d)"

definition dict_keys :: "('k, 'v) pydict \<Rightarrow> 'k list" where
  "dict_keys d = map fst d"

definition dict_values :: "('k, 'v) pydict \<Rightarrow> 'v list" where
  "dict_values d = map snd d"

text \<open>\<open>d.get(k, dflt)\<close>; also used for \<open>d[k]\<close> at a key \<open>k\<close> that ranges over \<open>d\<close>'s own keys.\<close>

definition dict_get :: "('k, 'v) pydict \<Rightarrow> 'k \<Rightarrow> 'v \<Rightarrow> 'v" where
  "dict_get d k dflt = (case map_of d k of None \<Rightarrow> dflt | Some v \<Rightarrow> v)"

text \<open>\<open>d[k] = v\<close>\<close>

fun dict_set :: "('k, 'v) pydict \<Rightarrow> 'k \<Rightarrow> 'v \<Rightarrow> ('k, 'v) pydict" where
  "dict_set [] k v = [(k, v)]"
| "dict_set ((k', v') # d) k v = (if k' = k then (k, v) # d else (k', v') # dict_set d k v)"

text \<open>
  The loop \<open>for color, amount in items: total[color] = total.get(color, 0) + amount\<close>,
  which both \<open>available_mana\<close> and \<open>can_cast_commander\<close> of version 3 run.
\<close>

definition add_items :: "dict \<Rightarrow> dict \<Rightarrow> dict" where
  "add_items tot items =
     fold (\<lambda>(color, amount) tot. dict_set tot color (dict_get tot color 0 + amount))
       items tot"

text \<open>\<open>collections.Counter(results)\<close>: one count per distinct element, in order of first occurrence.\<close>

definition Counter :: "int list \<Rightarrow> (int, int) pydict" where
  "Counter results = fold (\<lambda>t c. dict_set c t (dict_get c t 0 + 1)) results []"

text \<open>The truth value Python gives to an optional integer: \<open>None\<close> and \<open>0\<close> are false.\<close>

definition truthy :: "int option \<Rightarrow> bool" where
  "truthy r = (case r of None \<Rightarrow> False | Some t \<Rightarrow> t \<noteq> 0)"

text \<open>
  \<open>random.shuffle\<close> is outside the program: a shuffler gives, for the number of the trial,
  the permutation that trial's shuffle applies.  \<open>fair_shuffle\<close> says that it permutes.
\<close>

type_synonym 'a shuffler = "nat \<Rightarrow> 'a list \<Rightarrow> 'a list"

definition fair_shuffle :: "'a shuffler \<Rightarrow> bool" where
  "fair_shuffle shuf = (\<forall>i xs. mset (shuf i xs) = mset xs)"

text \<open>\<open>[xs.pop() for _ in range(n)]\<close>: each pop takes the last element and fails on an empty list.\<close>

fun pop_n :: "nat \<Rightarrow> 'a list \<Rightarrow> 'a list \<Rightarrow> error + ('a list \<times> 'a list)" where
  "pop_n 0 xs popped = Inr (popped, xs)"
| "pop_n (Suc n) xs popped =
     (if xs = [] then Inl IndexError else pop_n n (butlast xs) (popped @ [last xs]))"

section \<open>Version 3 (CommanderRampV003.py): cards\<close>

record card =
  name :: string
  ctype :: string
  cost :: int
  mana :: dict
  enters_tapped :: bool
  tapped :: bool
  summoning_sick :: bool
  cost_reduction :: dict

text \<open>\<open>Card.__init__\<close>; an omitted \<open>mana\<close> or \<open>cost_reduction\<close> is \<open>None\<close> and becomes \<open>{}\<close>.\<close>

definition Card ::
  "string \<Rightarrow> string \<Rightarrow> int \<Rightarrow> dict option \<Rightarrow> bool \<Rightarrow> bool \<Rightarrow> dict option \<Rightarrow> card" where
  "Card nm ct c m et ss cr =
     \<lparr>name = nm, ctype = ct, cost = c,
      mana = (case m of None \<Rightarrow> [] | Some d \<Rightarrow> d),
      enters_tapped = et, tapped = False, summoning_sick = ss,
      cost_reduction = (case cr of None \<Rightarrow> [] | Some d \<Rightarrow> d)\<rparr>"

definition can_produce_mana :: "card \<Rightarrow> int \<Rightarrow> int \<Rightarrow> bool" where
  "can_produce_mana c turn_played current_turn =
     (if ctype c = ''land'' then \<not> (enters_tapped c \<and> turn_played = current_turn)
      else if ctype c = ''rock'' then True
      else if ctype c = ''dork'' then current_turn > turn_played
      else False)"

definition produce_mana :: "card \<Rightarrow> dict" where
  "produce_mana c = mana c"

section \<open>Version 3: the game\<close>

record game =
  turn :: int
  deck :: "card list"
  hand :: "card list"
  battlefield :: "(card \<times> int) list"
  lands_played :: int

text \<open>\<open>Game.__init__\<close>: the template is copied, the copy shuffled, seven cards popped into the hand.\<close>

definition Game :: "(card list \<Rightarrow> card list) \<Rightarrow> card list \<Rightarrow> error + game" where
  "Game shuffle template =
     (case pop_n 7 (shuffle template) [] of
        Inl e \<Rightarrow> Inl e
      | Inr (h, d) \<Rightarrow>
          Inr \<lparr>turn = 0, deck = d, hand = h, battlefield = [], lands_played = 0\<rparr>)"

definition draw :: "game \<Rightarrow> game" where
  "draw g =
     (if deck g \<noteq> [] then g\<lparr>hand := hand g @ [last (deck g)], deck := butlast (deck g)\<rparr>
      else g)"

definition play_land :: "game \<Rightarrow> bool \<times> game" where
  "play_land g =
     (if lands_played g = 0 then
        (case find (\<lambda>c. ctype c = ''land'') (hand g) of
           Some c \<Rightarrow>
             (True, g\<lparr>battlefield := battlefield g @ [(c, turn g)],
                      hand := remove1 c (hand g),
                      lands_played := 1\<rparr>)
         | None \<Rightarrow> (False, g))
      else (False, g))"

definition available_mana :: "game \<Rightarrow> dict" where
  "available_mana g =
     fold (\<lambda>(c, played_turn) tot.
             if can_produce_mana c played_turn (turn g) then add_items tot (produce_mana c)
             else tot)
       (battlefield g) []"

definition can_pay_cost :: "game \<Rightarrow> int \<Rightarrow> bool" where
  "can_pay_cost g n = (sum_list (dict_values (available_mana g)) \<ge> n)"

definition deployable :: "game \<Rightarrow> card \<Rightarrow> bool" where
  "deployable g c = (ctype c \<in> set [''rock'', ''dork'', ''reducer''] \<and> can_pay_cost g (cost c))"

text \<open>
  \<open>play_permanents\<close>: one pass of the \<open>while\<close> loop scans a snapshot of the hand for the first
  card of a deployable kind whose cost can be paid, moves it to the battlefield and starts
  the next pass; a pass that finds none ends the loop.
\<close>

function play_permanents :: "game \<Rightarrow> game" where
  "play_permanents g =
     (case find (deployable g) (hand g) of
        Some c \<Rightarrow>
          play_permanents
            (g\<lparr>battlefield := battlefield g @ [(c, turn g)], hand := remove1 c (hand g)\<rparr>)
      | None \<Rightarrow> g)"
  by pat_completeness auto
termination
proof (relation "measure (\<lambda>g. length (hand g))")
  show "wf (measure (\<lambda>g. length (hand g)))" by simp
next
  fix g :: game and c
  assume "find (deployable g) (hand g) = Some c"
  then have "c \<in> set (hand g)"
    by (auto simp: find_Some_iff)
  then have "length (remove1 c (hand g)) < length (hand g)"
    using length_pos_if_in_set [of c "hand g"] by (simp add: length_remove1)
  then show "(g\<lparr>battlefield := battlefield g @ [(c, turn g)], hand := remove1 c (hand g)\<rparr>, g)
               \<in> measure (\<lambda>g. length (hand g))"
    by simp
qed

declare play_permanents.simps [simp del]

definition can_cast_commander :: "game \<Rightarrow> dict \<Rightarrow> bool" where
  "can_cast_commander g commander_cost =
     (let reductions = fold (\<lambda>(c, _) r. add_items r (cost_reduction c)) (battlefield g) [];
          effective_cost =
            fold (\<lambda>color e. dict_set e color (max 0 (dict_get e color 0 - dict_get reductions color 0)))
              (dict_keys commander_cost) commander_cost;
          mana_pool = available_mana g
      in if list_ex (\<lambda>color. color \<noteq> ''colorless''
                        \<and> dict_get mana_pool color 0 < dict_get effective_cost color 0)
              (dict_keys effective_cost)
         then False
         else sum_list (dict_values mana_pool) \<ge> sum_list (dict_values effective_cost))"

text \<open>The statements of one turn before the cast check (lines 151 to 155).\<close>

definition turn_body :: "game \<Rightarrow> game" where
  "turn_body g =
     (let g1 = g\<lparr>turn := turn g + 1\<rparr>;
          g2 = g1\<lparr>lands_played := 0\<rparr>;
          g3 = draw g2;
          g4 = snd (play_land g3)
      in play_permanents g4)"

text \<open>\<open>play_until_commander\<close> returns the turn of the cast, or \<open>None\<close>, with the game as it leaves it.\<close>

function play_until_commander :: "game \<Rightarrow> dict \<Rightarrow> int \<Rightarrow> int option \<times> game" where
  "play_until_commander g commander_cost max_turns =
     (if turn g < max_turns then
        (let g' = turn_body g
         in if can_cast_commander g' commander_cost then (Some (turn g'), g')
            else play_until_commander g' commander_cost max_turns)
      else (None, g))"
  by pat_completeness auto
termination
proof (relation "measure (\<lambda>(g, commander_cost, max_turns). nat (max_turns - turn g))")
  show "wf (measure (\<lambda>(g, commander_cost, max_turns). nat (max_turns - turn g)))"
    by simp
next
  fix g :: game and commander_cost :: dict and max_turns :: int and g' :: game
  assume lt: "turn g < max_turns" and g': "g' = turn_body g"
  have keep: "turn (play_permanents h) = turn h" for h
  proof (induction h rule: play_permanents.induct)
    case (1 h)
    show ?case
    proof (cases "find (deployable h) (hand h)")
      case None
      then show ?thesis by (subst play_permanents.simps) simp
    next
      case (Some c)
      with "1.IH" [OF Some] show ?thesis by (subst play_permanents.simps) simp
    qed
  qed
  have "turn g' = turn g + 1"
    by (simp add: g' turn_body_def Let_def keep play_land_def draw_def split: option.splits)
  with lt show "((g', commander_cost, max_turns), g, commander_cost, max_turns)
                  \<in> measure (\<lambda>(g, commander_cost, max_turns). nat (max_turns - turn g))"
    by simp
qed

declare play_until_commander.simps [simp del]

section \<open>Version 3: the Monte Carlo runner\<close>

text \<open>
  The \<open>for\<close> loop of \<open>run_simulation\<close> over the trial numbers still to run: a failing
  \<open>Game(deck)\<close> ends the run with its error, and a result is kept when it is truthy.
  \<open>play_until_commander\<close> is called with its default \<open>max_turns=20\<close>.
\<close>

fun trial_loop :: "card shuffler \<Rightarrow> card list \<Rightarrow> dict \<Rightarrow> nat list \<Rightarrow> int list \<Rightarrow> error + int list" where
  "trial_loop shuf template commander_cost [] results = Inr results"
| "trial_loop shuf template commander_cost (i # rest) results =
     (case Game (shuf i) template of
        Inl e \<Rightarrow> Inl e
      | Inr g \<Rightarrow>
          (let turn_cast = fst (play_until_commander g commander_cost 20)
           in trial_loop shuf template commander_cost rest
                (case turn_cast of
                   Some t \<Rightarrow> if truthy turn_cast then results @ [t] else results
                 | None \<Rightarrow> results)))"

text \<open>
  \<open>run_simulation\<close> returns the counts, the average and the number of kept results.  The
  average is the exact quotient (Python rounds it to a float), \<open>None\<close> when nothing was kept.
\<close>

definition run_simulation ::
  "card shuffler \<Rightarrow> card list \<Rightarrow> dict \<Rightarrow> int \<Rightarrow> error + ((int, int) pydict \<times> rat option \<times> int)" where
  "run_simulation shuf template commander_cost trials =
     (case trial_loop shuf template commander_cost [0..<nat trials] [] of
        Inl e \<Rightarrow> Inl e
      | Inr results \<Rightarrow>
          Inr (Counter results,
               (if results \<noteq> [] then Some (of_int (sum_list results) / of_int (int (length results)))
                else None),
               int (length results)))"

section \<open>Version 1 (CommanderRampV001.py)\<close>

text \<open>A card of version 1 is a dictionary with the four keys \<open>name\<close>, \<open>type\<close>, \<open>cost\<close> and \<open>mana\<close>.\<close>

record card_v1 =
  name_v1 :: string
  type_v1 :: string
  cost_v1 :: int
  mana_v1 :: dict

definition Land_v1 :: card_v1 where
  "Land_v1 = \<lparr>name_v1 = ''Land'', type_v1 = ''land'', cost_v1 = 0, mana_v1 = [(''colorless'', 1)]\<rparr>"

definition Rock_v1 :: card_v1 where
  "Rock_v1 = \<lparr>name_v1 = ''Rock'', type_v1 = ''rock'', cost_v1 = 2, mana_v1 = [(''colorless'', 1)]\<rparr>"

definition Filler_v1 :: card_v1 where
  "Filler_v1 = \<lparr>name_v1 = ''Filler'', type_v1 = ''filler'', cost_v1 = 0, mana_v1 = []\<rparr>"

text \<open>\<open>build_deck\<close>: \<open>range(n)\<close> is empty for a negative \<open>n\<close>.\<close>

definition build_deck :: "int \<Rightarrow> int \<Rightarrow> int \<Rightarrow> card_v1 list" where
  "build_deck lands rocks fillers =
     replicate (nat lands) Land_v1 @ replicate (nat rocks) Rock_v1 @ replicate (nat fillers) Filler_v1"

record game_v1 =
  turn_v1 :: int
  deck_v1 :: "card_v1 list"
  hand_v1 :: "card_v1 list"
  battlefield_v1 :: "card_v1 list"
  lands_played_v1 :: int

definition Game_v1 :: "(card_v1 list \<Rightarrow> card_v1 list) \<Rightarrow> card_v1 list \<Rightarrow> error + game_v1" where
  "Game_v1 shuffle template =
     (case pop_n 7 (shuffle template) [] of
        Inl e \<Rightarrow> Inl e
      | Inr (h, d) \<Rightarrow>
          Inr \<lparr>turn_v1 = 0, deck_v1 = d, hand_v1 = h, battlefield_v1 = [], lands_played_v1 = 0\<rparr>)"

definition draw_v1 :: "game_v1 \<Rightarrow> game_v1" where
  "draw_v1 g =
     (if deck_v1 g \<noteq> [] then
        g\<lparr>hand_v1 := hand_v1 g @ [last (deck_v1 g)], deck_v1 := butlast (deck_v1 g)\<rparr>
      else g)"

definition available_mana_v1 :: "game_v1 \<Rightarrow> int" where
  "available_mana_v1 g = sum_list (map (\<lambda>c. dict_get (mana_v1 c) ''colorless'' 0) (battlefield_v1 g))"

definition play_land_v1 :: "game_v1 \<Rightarrow> bool \<times> game_v1" where
  "play_land_v1 g =
     (if lands_played_v1 g = 0 then
        (case find (\<lambda>c. type_v1 c = ''land'') (hand_v1 g) of
           Some c \<Rightarrow>
             (True, g\<lparr>battlefield_v1 := battlefield_v1 g @ [c],
                      hand_v1 := remove1 c (hand_v1 g),
                      lands_played_v1 := 1\<rparr>)
         | None \<Rightarrow> (False, g))
      else (False, g))"

definition affordable_rock :: "game_v1 \<Rightarrow> card_v1 \<Rightarrow> bool" where
  "affordable_rock g c = (type_v1 c = ''rock'' \<and> available_mana_v1 g \<ge> cost_v1 c)"

function play_rocks :: "game_v1 \<Rightarrow> game_v1" where
  "play_rocks g =
     (case find (affordable_rock g) (hand_v1 g) of
        Some c \<Rightarrow>
          play_rocks (g\<lparr>battlefield_v1 := battlefield_v1 g @ [c], hand_v1 := remove1 c (hand_v1 g)\<rparr>)
      | None \<Rightarrow> g)"
  by pat_completeness auto
termination
proof (relation "measure (\<lambda>g. length (hand_v1 g))")
  show "wf (measure (\<lambda>g. length (hand_v1 g)))" by simp
next
  fix g :: game_v1 and c
  assume "find (affordable_rock g) (hand_v1 g) = Some c"
  then have "c \<in> set (hand_v1 g)"
    by (auto simp: find_Some_iff)
  then have "length (remove1 c (hand_v1 g)) < length (hand_v1 g)"
    using length_pos_if_in_set [of c "hand_v1 g"] by (simp add: length_remove1)
  then show "(g\<lparr>battlefield_v1 := battlefield_v1 g @ [c], hand_v1 := remove1 c (hand_v1 g)\<rparr>, g)
               \<in> measure (\<lambda>g. length (hand_v1 g))"
    by simp
qed

declare play_rocks.simps [simp del]

definition turn_body_v1 :: "game_v1 \<Rightarrow> game_v1" where
  "turn_body_v1 g =
     (let g1 = g\<lparr>turn_v1 := turn_v1 g + 1\<rparr>;
          g2 = g1\<lparr>lands_played_v1 := 0\<rparr>;
          g3 = draw_v1 g2;
          g4 = snd (play_land_v1 g3)
      in play_rocks g4)"

function play_until_commander_v1 :: "game_v1 \<Rightarrow> int \<Rightarrow> int \<Rightarrow> int option \<times> game_v1" where
  "play_until_commander_v1 g commander_cost max_turns =
     (if turn_v1 g < max_turns then
        (let g' = turn_body_v1 g
         in if available_mana_v1 g' \<ge> commander_cost then (Some (turn_v1 g'), g')
            else play_until_commander_v1 g' commander_cost max_turns)
      else (None, g))"
  by pat_completeness auto
termination
proof (relation "measure (\<lambda>(g, commander_cost, max_turns). nat (max_turns - turn_v1 g))")
  show "wf (measure (\<lambda>(g, commander_cost, max_turns). nat (max_turns - turn_v1 g)))"
    by simp
next
  fix g :: game_v1 and commander_cost :: int and max_turns :: int and g' :: game_v1
  assume lt: "turn_v1 g < max_turns" and g': "g' = turn_body_v1 g"
  have keep: "turn_v1 (play_rocks h) = turn_v1 h" for h
  proof (induction h rule: play_rocks.induct)
    case (1 h)
    show ?case
    proof (cases "find (affordable_rock h) (hand_v1 h)")
      case None
      then show ?thesis by (subst play_rocks.simps) simp
    next
      case (Some c)
      with "1.IH" [OF Some] show ?thesis by (subst play_rocks.simps) simp
    qed
  qed
  have "turn_v1 g' = turn_v1 g + 1"
    by (simp add: g' turn_body_v1_def Let_def keep play_land_v1_def draw_v1_def split: option.splits)
  with lt show "((g', commander_cost, max_turns), g, commander_cost, max_turns)
                  \<in> measure (\<lambda>(g, commander_cost, max_turns). nat (max_turns - turn_v1 g))"
    by simp
qed

declare play_until_commander_v1.simps [simp del]

text \<open>The trial loop of version 1; the engine runs with its defaults \<open>commander_cost=6, max_turns=20\<close>.\<close>

fun trial_loop_v1 :: "card_v1 shuffler \<Rightarrow> card_v1 list \<Rightarrow> nat list \<Rightarrow> int list \<Rightarrow> error + int list" where
  "trial_loop_v1 shuf template [] results = Inr results"
| "trial_loop_v1 shuf template (i # rest) results =
     (case Game_v1 (shuf i) template of
        Inl e \<Rightarrow> Inl e
      | Inr g \<Rightarrow>
          (let turn_cast = fst (play_until_commander_v1 g 6 20)
           in trial_loop_v1 shuf template rest
                (case turn_cast of
                   Some t \<Rightarrow> if truthy turn_cast then results @ [t] else results
                 | None \<Rightarrow> results)))"

text \<open>\<open>run_simulation\<close> of version 1 divides by \<open>len(results)\<close> without a test.\<close>

definition run_simulation_v1 ::
  "card_v1 shuffler \<Rightarrow> int \<Rightarrow> int \<Rightarrow> int \<Rightarrow> int \<Rightarrow> error + ((int, int) pydict \<times> rat)" where
  "run_simulation_v1 shuf trials lands rocks fillers =
     (case trial_loop_v1 shuf (build_deck lands rocks fillers) [0..<nat trials] [] of
        Inl e \<Rightarrow> Inl e
      | Inr results \<Rightarrow>
          if length results = 0 then Inl ZeroDivisionError
          else Inr (Counter results, of_int (sum_list results) / of_int (int (length results))))"

section \<open>Version 4 (CommanderRampV004.py)\<close>

text \<open>
  Version 4 builds its cards as objects, shuffles the caller's list in place and assigns to
  the \<open>summoning_sick\<close> attribute of cards that the deck list still refers to.  The model
  therefore keeps an object store: a list of objects indexed by address; the deck and the
  zones are lists of addresses.  An attribute that a class does not have is carried with
  the value the program never reads.
\<close>

datatype card_class = CardC | LandC | ConditionalLandC | ManaRockC | ManaDorkC

datatype predicate = HasMountain

record object_v4 =
  cls :: card_class
  name_v4 :: string
  produces :: "string list"
  enters_tapped_v4 :: bool
  condition :: "predicate option"
  cost_v4 :: int
  summoning_sick_v4 :: bool

type_synonym ref = nat

type_synonym store = "object_v4 list"

definition Card_v4 :: "string \<Rightarrow> object_v4" where
  "Card_v4 nm = \<lparr>cls = CardC, name_v4 = nm, produces = [], enters_tapped_v4 = False,
                 condition = None, cost_v4 = 0, summoning_sick_v4 = False\<rparr>"

definition Land :: "string \<Rightarrow> string list \<Rightarrow> bool \<Rightarrow> object_v4" where
  "Land nm pr et = \<lparr>cls = LandC, name_v4 = nm, produces = pr, enters_tapped_v4 = et,
                    condition = None, cost_v4 = 0, summoning_sick_v4 = False\<rparr>"

definition ConditionalLand :: "string \<Rightarrow> string list \<Rightarrow> predicate option \<Rightarrow> object_v4" where
  "ConditionalLand nm pr cond = \<lparr>cls = ConditionalLandC, name_v4 = nm, produces = pr,
                                 enters_tapped_v4 = False, condition = cond, cost_v4 = 0,
                                 summoning_sick_v4 = False\<rparr>"

definition ManaRock :: "string \<Rightarrow> int \<Rightarrow> string list \<Rightarrow> object_v4" where
  "ManaRock nm c pr = \<lparr>cls = ManaRockC, name_v4 = nm, produces = pr, enters_tapped_v4 = False,
                       condition = None, cost_v4 = c, summoning_sick_v4 = False\<rparr>"

definition ManaDork :: "string \<Rightarrow> int \<Rightarrow> string list \<Rightarrow> object_v4" where
  "ManaDork nm c pr = \<lparr>cls = ManaDorkC, name_v4 = nm, produces = pr, enters_tapped_v4 = False,
                       condition = None, cost_v4 = c, summoning_sick_v4 = True\<rparr>"

definition isinstance_Land :: "object_v4 \<Rightarrow> bool" where
  "isinstance_Land ob = (cls ob = LandC \<or> cls ob = ConditionalLandC)"

definition isinstance_ManaRock :: "object_v4 \<Rightarrow> bool" where
  "isinstance_ManaRock ob = (cls ob = ManaRockC)"

definition isinstance_ManaDork :: "object_v4 \<Rightarrow> bool" where
  "isinstance_ManaDork ob = (cls ob = ManaDorkC)"

definition has_mountain :: "store \<Rightarrow> ref list \<Rightarrow> bool" where
  "has_mountain st bf = list_ex (\<lambda>a. isinstance_Land (st ! a) \<and> ''R'' \<in> set (produces (st ! a))) bf"

definition holds :: "predicate \<Rightarrow> store \<Rightarrow> ref list \<Rightarrow> bool" where
  "holds p st bf = (case p of HasMountain \<Rightarrow> has_mountain st bf)"

text \<open>\<open>card.play(battlefield, turn)\<close> of \<open>Land\<close> and of \<open>ConditionalLand\<close>: true when the land enters tapped.\<close>

definition play :: "store \<Rightarrow> ref \<Rightarrow> ref list \<Rightarrow> bool" where
  "play st a bf =
     (if cls (st ! a) = ConditionalLandC then
        (case condition (st ! a) of
           Some p \<Rightarrow> if holds p st bf then False else True
         | None \<Rightarrow> True)
      else enters_tapped_v4 (st ! a))"

record sim_v4 =
  store_v4 :: store
  hand_v4 :: "ref list"
  library_v4 :: "ref list"
  battlefield_v4 :: "ref list"
  mana_sources :: "ref list"
  turn_v4 :: int

text \<open>Lines 96 and 97: the draw.  Lines 100 to 107: the land drop.\<close>

definition draw_v4 :: "sim_v4 \<Rightarrow> sim_v4" where
  "draw_v4 s =
     (if library_v4 s \<noteq> [] then
        s\<lparr>hand_v4 := hand_v4 s @ [hd (library_v4 s)], library_v4 := tl (library_v4 s)\<rparr>
      else s)"

definition land_drop_v4 :: "sim_v4 \<Rightarrow> sim_v4" where
  "land_drop_v4 s =
     (case find (\<lambda>a. isinstance_Land (store_v4 s ! a)) (hand_v4 s) of
        Some a \<Rightarrow>
          (let tapped = play (store_v4 s) a (battlefield_v4 s)
           in s\<lparr>battlefield_v4 := battlefield_v4 s @ [a],
                mana_sources := (if \<not> tapped then mana_sources s @ [a] else mana_sources s),
                hand_v4 := remove1 a (hand_v4 s)\<rparr>)
      | None \<Rightarrow> s)"

definition castable_v4 :: "store \<Rightarrow> int \<Rightarrow> ref \<Rightarrow> bool" where
  "castable_v4 st mana_available a =
     ((isinstance_ManaRock (st ! a) \<and> mana_available \<ge> cost_v4 (st ! a))
      \<or> (isinstance_ManaDork (st ! a) \<and> mana_available \<ge> cost_v4 (st ! a)))"

text \<open>Lines 110 to 128: the \<open>while playable\<close> loop, with the local \<open>mana_available\<close>.\<close>

function deploy_v4 :: "sim_v4 \<Rightarrow> int \<Rightarrow> sim_v4" where
  "deploy_v4 s mana_available =
     (case find (castable_v4 (store_v4 s) mana_available) (hand_v4 s) of
        Some a \<Rightarrow>
          (if isinstance_ManaRock (store_v4 s ! a) \<and> mana_available \<ge> cost_v4 (store_v4 s ! a) then
             deploy_v4
               (s\<lparr>battlefield_v4 := battlefield_v4 s @ [a],
                  mana_sources := mana_sources s @ [a],
                  hand_v4 := remove1 a (hand_v4 s)\<rparr>)
               (mana_available - cost_v4 (store_v4 s ! a))
           else
             deploy_v4
               (s\<lparr>battlefield_v4 := battlefield_v4 s @ [a],
                  store_v4 := (store_v4 s)[a := (store_v4 s ! a)\<lparr>summoning_sick_v4 := True\<rparr>],
                  hand_v4 := remove1 a (hand_v4 s)\<rparr>)
               (mana_available - cost_v4 (store_v4 s ! a)))
      | None \<Rightarrow> s)"
  by pat_completeness auto
termination
proof (relation "measure (\<lambda>(s, m). length (hand_v4 s))")
  show "wf (measure (\<lambda>(s :: sim_v4, m :: int). length (hand_v4 s)))" by simp
next
  fix s :: sim_v4 and mana_available :: int and a
  assume "find (castable_v4 (store_v4 s) mana_available) (hand_v4 s) = Some a"
  then have "a \<in> set (hand_v4 s)"
    by (auto simp: find_Some_iff)
  then have less: "length (remove1 a (hand_v4 s)) < length (hand_v4 s)"
    using length_pos_if_in_set [of a "hand_v4 s"] by (simp add: length_remove1)
  from less show "((s\<lparr>battlefield_v4 := battlefield_v4 s @ [a],
                      mana_sources := mana_sources s @ [a],
                      hand_v4 := remove1 a (hand_v4 s)\<rparr>,
                    mana_available - cost_v4 (store_v4 s ! a)), s, mana_available)
                  \<in> measure (\<lambda>(s, m). length (hand_v4 s))"
    by simp
  from less show "((s\<lparr>battlefield_v4 := battlefield_v4 s @ [a],
                      store_v4 := (store_v4 s)[a := (store_v4 s ! a)\<lparr>summoning_sick_v4 := True\<rparr>],
                      hand_v4 := remove1 a (hand_v4 s)\<rparr>,
                    mana_available - cost_v4 (store_v4 s ! a)), s, mana_available)
                  \<in> measure (\<lambda>(s, m). length (hand_v4 s))"
    by simp
qed

declare deploy_v4.simps [simp del]

text \<open>Lines 131 to 133: the total the cast check uses.  Lines 136 to 138: sickness is cleared.\<close>

definition total_mana_v4 :: "store \<Rightarrow> ref list \<Rightarrow> int" where
  "total_mana_v4 st bf =
     int (length (filter (\<lambda>a. isinstance_Land (st ! a)) bf))
     + int (length (filter (\<lambda>a. isinstance_ManaRock (st ! a)) bf))
     + int (length (filter (\<lambda>a. isinstance_ManaDork (st ! a) \<and> \<not> summoning_sick_v4 (st ! a)) bf))"

definition clear_sickness :: "store \<Rightarrow> ref list \<Rightarrow> store" where
  "clear_sickness st bf =
     fold (\<lambda>a st. if isinstance_ManaDork (st ! a) then st[a := (st ! a)\<lparr>summoning_sick_v4 := False\<rparr>]
                   else st)
       bf st"

definition turn_body_v4 :: "sim_v4 \<Rightarrow> sim_v4" where
  "turn_body_v4 s =
     (let s1 = s\<lparr>turn_v4 := turn_v4 s + 1\<rparr>;
          s2 = draw_v4 s1;
          s3 = land_drop_v4 s2
      in deploy_v4 s3 (int (length (mana_sources s3))))"

function turn_loop_v4 :: "sim_v4 \<Rightarrow> int \<Rightarrow> int \<Rightarrow> int option \<times> sim_v4" where
  "turn_loop_v4 s commander_cost max_turns =
     (if turn_v4 s < max_turns then
        (let s' = turn_body_v4 s;
             total_mana = total_mana_v4 (store_v4 s') (battlefield_v4 s');
             s'' = s'\<lparr>store_v4 := clear_sickness (store_v4 s') (battlefield_v4 s')\<rparr>
         in if total_mana \<ge> commander_cost then (Some (turn_v4 s''), s'')
            else turn_loop_v4 s'' commander_cost max_turns)
      else (None, s))"
  by pat_completeness auto
termination
proof (relation "measure (\<lambda>(s, commander_cost, max_turns). nat (max_turns - turn_v4 s))")
  show "wf (measure (\<lambda>(s, commander_cost :: int, max_turns). nat (max_turns - turn_v4 s)))"
    by simp
next
  fix s :: sim_v4 and commander_cost :: int and max_turns :: int and s' :: sim_v4
    and total_mana :: int and s'' :: sim_v4
  assume lt: "turn_v4 s < max_turns" and s': "s' = turn_body_v4 s"
    and s'': "s'' = s'\<lparr>store_v4 := clear_sickness (store_v4 s') (battlefield_v4 s')\<rparr>"
  have keep: "turn_v4 (deploy_v4 h m) = turn_v4 h" for h m
  proof (induction h m rule: deploy_v4.induct)
    case (1 h m)
    show ?case
    proof (cases "find (castable_v4 (store_v4 h) m) (hand_v4 h)")
      case None
      then show ?thesis by (subst deploy_v4.simps) simp
    next
      case (Some a)
      show ?thesis
      proof (cases "isinstance_ManaRock (store_v4 h ! a) \<and> m \<ge> cost_v4 (store_v4 h ! a)")
        case True
        with "1.IH"(1) [OF Some True] Some show ?thesis by (subst deploy_v4.simps) simp
      next
        case False
        with "1.IH"(2) [OF Some False] Some show ?thesis by (subst deploy_v4.simps) auto
      qed
    qed
  qed
  have "turn_v4 s'' = turn_v4 s + 1"
    by (simp add: s'' s' turn_body_v4_def Let_def keep land_drop_v4_def draw_v4_def
          split: option.splits)
  with lt show "((s'', commander_cost, max_turns), s, commander_cost, max_turns)
                  \<in> measure (\<lambda>(s, commander_cost, max_turns). nat (max_turns - turn_v4 s))"
    by simp
qed

declare turn_loop_v4.simps [simp del]

text \<open>
  \<open>simulate_game\<close>: \<open>random.shuffle(deck)\<close> reorders the caller's list, the hand and the library
  are slices of it.  The result carries the store and the caller's list as the call leaves them.
\<close>

definition simulate_game ::
  "(ref list \<Rightarrow> ref list) \<Rightarrow> store \<Rightarrow> ref list \<Rightarrow> int \<Rightarrow> int \<Rightarrow> int option \<times> store \<times> ref list" where
  "simulate_game shuffle st deck_list commander_cost max_turns =
     (let deck_list' = shuffle deck_list;
          s0 = \<lparr>store_v4 = st, hand_v4 = take 7 deck_list', library_v4 = drop 7 deck_list',
                battlefield_v4 = [], mana_sources = [], turn_v4 = 0\<rparr>;
          (r, s) = turn_loop_v4 s0 commander_cost max_turns
      in (r, store_v4 s, deck_list'))"

definition has_mountain_condition :: "predicate option" where
  "has_mountain_condition = Some HasMountain"

text \<open>\<open>build_deck\<close> of version 4: the objects it creates, and the list of their addresses.\<close>

definition build_deck_v4 :: "store \<times> ref list" where
  "build_deck_v4 =
     (let objects =
            replicate 20 (Land ''Mountain'' [''R''] False)
            @ replicate 10 (Land ''Swamp'' [''B''] False)
            @ replicate 5 (ConditionalLand ''MountainCheckLand'' [''R''] has_mountain_condition)
            @ replicate 10 (ManaRock ''Signet'' 2 [''R'', ''B''])
            @ replicate 1 (ManaDork ''Lead Myr'' 1 [''B''])
            @ replicate (100 - 46) (Card_v4 ''Other'')
      in (objects, [0..<length objects]))"

text \<open>The trial loop of \<open>run_simulations\<close>; every trial is handed the same list \<open>deck\<close>.\<close>

fun trial_loop_v4 ::
  "ref shuffler \<Rightarrow> store \<Rightarrow> ref list \<Rightarrow> nat list \<Rightarrow> int list \<Rightarrow> int list \<times> store \<times> ref list" where
  "trial_loop_v4 shuf st deck_list [] results = (results, st, deck_list)"
| "trial_loop_v4 shuf st deck_list (i # rest) results =
     (case simulate_game (shuf i) st deck_list 6 15 of
        (t, st', deck_list') \<Rightarrow>
          trial_loop_v4 shuf st' deck_list' rest
            (case t of Some n \<Rightarrow> results @ [n] | None \<Rightarrow> results))"

text \<open>\<open>run_simulations\<close> up to the printing: the distribution, and the deck as the trials leave it.\<close>

definition run_simulations :: "ref shuffler \<Rightarrow> int \<Rightarrow> (int, int) pydict \<times> store \<times> ref list" where
  "run_simulations shuf trials =
     (case build_deck_v4 of
        (st, deck_list) \<Rightarrow>
          (case trial_loop_v4 shuf st deck_list [0..<nat trials] [] of
             (results, st', deck_list') \<Rightarrow> (Counter results, st', deck_list')))"

section \<open>Notions of the specification\<close>

text \<open>
  The aggregate reduction of a colour as the specification words it: the sum, over the
  cost reducers on the battlefield, of what each takes off that colour.
\<close>

definition total_reduction :: "(card \<times> int) list \<Rightarrow> string \<Rightarrow> int" where
  "total_reduction bf color =
     sum_list (map (\<lambda>(c, _). dict_get (cost_reduction c) color 0)
                 (filter (\<lambda>(c, _). ctype c = ''reducer'') bf))"

definition effective_requirement :: "dict \<Rightarrow> (card \<times> int) list \<Rightarrow> string \<Rightarrow> int" where
  "effective_requirement commander_cost bf color =
     max 0 (dict_get commander_cost color 0 - total_reduction bf color)"

text \<open>
  The test of \<open>canCastCommander\<close> in the specification's words, with the reductions of the
  cost reducers only: \<open>claimed_can_cast\<close>.  The reduction of a colour summed over every
  permanent on the battlefield, whatever its kind, and the effective cost it leaves:
  \<open>battlefield_reduction\<close> and \<open>effective_cost\<close>.
\<close>

definition battlefield_reduction :: "(card \<times> int) list \<Rightarrow> string \<Rightarrow> int" where
  "battlefield_reduction bf color =
     sum_list (map (\<lambda>(c, _). dict_get (cost_reduction c) color 0) bf)"

definition effective_cost :: "dict \<Rightarrow> (card \<times> int) list \<Rightarrow> string \<Rightarrow> int" where
  "effective_cost commander_cost bf color =
     max 0 (dict_get commander_cost color 0 - battlefield_reduction bf color)"

definition claimed_can_cast :: "game \<Rightarrow> dict \<Rightarrow> bool" where
  "claimed_can_cast g commander_cost =
     ((\<forall>color \<in> set (dict_keys commander_cost).
          color \<noteq> ''colorless'' \<longrightarrow>
          dict_get (available_mana g) color 0
            \<ge> effective_requirement commander_cost (battlefield g) color)
      \<and> sum_list (dict_values (available_mana g))
          \<ge> sum_list (map (effective_requirement commander_cost (battlefield g))
                        (dict_keys commander_cost)))"

text \<open>
  The data model of the specification: dictionaries hold no key twice, and only a cost
  reducer carries a non-empty cost reduction.
\<close>

definition card_ok :: "card \<Rightarrow> bool" where
  "card_ok c = (dict_ok (mana c) \<and> dict_ok (cost_reduction c)
                \<and> (ctype c \<noteq> ''reducer'' \<longrightarrow> cost_reduction c = []))"

definition producing :: "game \<Rightarrow> (card \<times> int) list" where
  "producing g = filter (\<lambda>(c, played_turn). can_produce_mana c played_turn (turn g)) (battlefield g)"

definition zone_cards :: "game \<Rightarrow> card multiset" where
  "zone_cards g = mset (deck g) + mset (hand g) + mset (map fst (battlefield g))"

definition colorless_land :: "card \<Rightarrow> bool" where
  "colorless_land c = (ctype c = ''land'' \<and> mana c = [(''colorless'', 1)] \<and> \<not> enters_tapped c
                       \<and> cost_reduction c = [])"

text \<open>What trial number \<open>i\<close> of \<open>run_simulation\<close> gets from the engine.\<close>

definition trial_result :: "card shuffler \<Rightarrow> card list \<Rightarrow> dict \<Rightarrow> nat \<Rightarrow> error + int option" where
  "trial_result shuf template commander_cost i =
     (case Game (shuf i) template of
        Inl e \<Rightarrow> Inl e
      | Inr g \<Rightarrow> Inr (fst (play_until_commander g commander_cost 20)))"

text \<open>The turns that the trials with these numbers return when they do not time out.\<close>

definition successes :: "card shuffler \<Rightarrow> card list \<Rightarrow> dict \<Rightarrow> nat list \<Rightarrow> int list" where
  "successes shuf template commander_cost trial_numbers =
     concat (map (\<lambda>i. case trial_result shuf template commander_cost i of
                         Inr (Some t) \<Rightarrow> [t]
                       | _ \<Rightarrow> [])
               trial_numbers)"

text \<open>
  The state of a trial on a deck of colourless lands (version 3) or of \<open>Land\<close> cards
  (version 1): every card in every zone is such a land, one land was dropped in each turn
  so far, and hand and battlefield together hold at least the seven cards dealt.
\<close>

definition lands_only :: "game \<Rightarrow> bool" where
  "lands_only g =
     (list_all colorless_land (deck g) \<and> list_all colorless_land (hand g)
      \<and> list_all (\<lambda>(c, t). colorless_land c) (battlefield g)
      \<and> turn g = int (length (battlefield g))
      \<and> 7 \<le> length (hand g) + length (battlefield g))"

definition lands_only_v1 :: "game_v1 \<Rightarrow> bool" where
  "lands_only_v1 g =
     (list_all (\<lambda>c. c = Land_v1) (deck_v1 g) \<and> list_all (\<lambda>c. c = Land_v1) (hand_v1 g)
      \<and> list_all (\<lambda>c. c = Land_v1) (battlefield_v1 g)
      \<and> turn_v1 g = int (length (battlefield_v1 g))
      \<and> 7 \<le> length (hand_v1 g) + length (battlefield_v1 g))"

text \<open>A trial of version 1 with nothing on the battlefield and only fillers to draw.\<close>

definition barren_v1 :: "game_v1 \<Rightarrow> bool" where
  "barren_v1 g =
     (battlefield_v1 g = [] \<and> list_all (\<lambda>c. c = Filler_v1) (hand_v1 g)
      \<and> list_all (\<lambda>c. c = Filler_v1) (deck_v1 g))"

text \<open>What trial number \<open>i\<close> of version 1 gets from the engine, and the turns of the trials that do not time out.\<close>

definition trial_result_v1 :: "card_v1 shuffler \<Rightarrow> card_v1 list \<Rightarrow> nat \<Rightarrow> error + int option" where
  "trial_result_v1 shuf template i =
     (case Game_v1 (shuf i) template of
        Inl e \<Rightarrow> Inl e
      | Inr g \<Rightarrow> Inr (fst (play_until_commander_v1 g 6 20)))"

definition successes_v1 :: "card_v1 shuffler \<Rightarrow> card_v1 list \<Rightarrow> nat list \<Rightarrow> int list" where
  "successes_v1 shuf template trial_numbers =
     concat (map (\<lambda>i. case trial_result_v1 shuf template i of
                         Inr (Some t) \<Rightarrow> [t]
                       | _ \<Rightarrow> [])
               trial_numbers)"

section \<open>Example inputs\<close>

text \<open>
  A battlefield on turn 3 with two lands, a reducer of black and a rock, and a commander
  cost of two colourless, one black and one red.
\<close>

definition medallion_game :: game where
  "medallion_game =
     \<lparr>turn = 3, deck = [], hand = [],
      battlefield =
        [(Card ''Swamp'' ''land'' 0 (Some [(''black'', 1)]) False False None, 1),
         (Card ''Mountain'' ''land'' 0 (Some [(''red'', 1)]) False False None, 2),
         (Card ''Jet Medallion'' ''reducer'' 2 None False False (Some [(''black'', 1)]), 2),
         (Card ''Mind Stone'' ''rock'' 2 (Some [(''colorless'', 1)]) False False None, 3)],
      lands_played = 1\<rparr>"

definition medallion_cost :: dict where
  "medallion_cost = [(''colorless'', 2), (''black'', 1), (''red'', 1)]"

text \<open>A deck of ten cards with its start under the reversing shuffle, and a deck of eight fillers.\<close>

definition mixed_deck :: "card list" where
  "mixed_deck =
     [Card ''Swamp'' ''land'' 0 (Some [(''black'', 1)]) False False None,
      Card ''Mind Stone'' ''rock'' 2 (Some [(''colorless'', 1)]) False False None,
      Card ''Filler'' ''filler'' 0 None False False None,
      Card ''Llanowar Elves'' ''dork'' 1 (Some [(''green'', 1)]) False True None,
      Card ''Temple'' ''land'' 0 (Some [(''black'', 1)]) True False None,
      Card ''Jet Medallion'' ''reducer'' 2 None False False (Some [(''black'', 1)]),
      Card ''Mountain'' ''land'' 0 (Some [(''red'', 1)]) False False None,
      Card ''Filler'' ''filler'' 0 None False False None,
      Card ''Mountain'' ''land'' 0 (Some [(''red'', 1)]) False False None,
      Card ''Swamp'' ''land'' 0 (Some [(''black'', 1)]) False False None]"

definition filler_deck :: "card list" where
  "filler_deck = replicate 8 (Card ''Filler'' ''filler'' 0 None False False None)"

definition mixed_start :: game where
  "mixed_start = \<lparr>turn = 0, deck = take 3 (rev mixed_deck), hand = take 7 mixed_deck,
                   battlefield = [], lands_played = 0\<rparr>"

definition filler_start :: game where
  "filler_start = \<lparr>turn = 0, deck = take 1 filler_deck, hand = take 7 filler_deck,
                    battlefield = [], lands_played = 0\<rparr>"

text \<open>Scenario A: a hundred lands that each tap for one colourless mana and enter untapped.\<close>

definition hundred_lands :: "card list" where
  "hundred_lands = replicate 100 (Card ''Wastes'' ''land'' 0 (Some [(''colorless'', 1)]) False False None)"

text \<open>A fresh game of version 1 on ten lands.\<close>

definition lands_start_v1 :: game_v1 where
  "lands_start_v1 = \<lparr>turn_v1 = 0, deck_v1 = replicate 3 Land_v1, hand_v1 = replicate 7 Land_v1,
                      battlefield_v1 = [], lands_played_v1 = 0\<rparr>"

text \<open>
  Two object stores of version 4, each with the deck list \<open>[0..<8]\<close>: seven of the program's
  conditional lands and one other card; and a land, a dork and six other cards.
\<close>

definition check_lands :: store where
  "check_lands =
     replicate 7 (ConditionalLand ''MountainCheckLand'' [''R''] has_mountain_condition)
     @ [Card_v4 ''Other'']"

definition dork_store :: store where
  "dork_store =
     [Land ''Swamp'' [''B''] False, ManaDork ''Lead Myr'' 1 [''B'']]
     @ replicate 6 (Card_v4 ''Other'')"

text \<open>A game of version 3 on turn 1 whose only permanent is a land that entered tapped this turn.\<close>

definition temple_game :: game where
  "temple_game =
     \<lparr>turn = 1, deck = [], hand = [],
      battlefield = [(Card ''Temple'' ''land'' 0 (Some [(''black'', 1)]) True False None, 1)],
      lands_played = 1\<rparr>"

text \<open>A land that carries a reduction of red, alone on the battlefield, and a commander cost of one red.\<close>

definition odd_land_game :: game where
  "odd_land_game =
     \<lparr>turn = 1, deck = [], hand = [],
      battlefield = [(Card ''Odd Land'' ''land'' 0 None False False (Some [(''red'', 1)]), 1)],
      lands_played = 1\<rparr>"

definition odd_land_cost :: dict where
  "odd_land_cost = [(''red'', 1)]"

section \<open>Dictionaries\<close>

lemma dict_get_set:
  "dict_get (dict_set d k v) k' dflt = (if k' = k then v else dict_get d k' dflt)"
  by (induction d) (auto simp: dict_get_def)

lemma dict_keys_set:
  "dict_keys (dict_set d k v) = (if k \<in> set (dict_keys d) then dict_keys d else dict_keys d @ [k])"
  by (induction d) (force simp: dict_keys_def)+

lemma dict_ok_set: "dict_ok d \<Longrightarrow> dict_ok (dict_set d k v)"
  using dict_keys_set [of d k v] by (auto simp: dict_ok_def dict_keys_def)

lemma sum_values_set:
  "sum_list (dict_values (dict_set d k v)) = sum_list (dict_values d) - dict_get d k 0 + (v :: int)"
  by (induction d) (auto simp: dict_values_def dict_get_def)

lemma dict_get_add_items:
  "dict_get (add_items tot items) k 0
     = dict_get tot k 0 + sum_list (map snd (filter (\<lambda>(c, a). c = k) items))"
  unfolding add_items_def
  by (induction items arbitrary: tot) (auto simp: dict_get_set)

lemma sum_matching_items:
  "dict_ok items \<Longrightarrow> sum_list (map snd (filter (\<lambda>(c, a). c = k) items)) = dict_get items k 0"
proof (induction items)
  case Nil
  then show ?case by (simp add: dict_get_def)
next
  case (Cons p items)
  obtain c a where p: "p = (c, a)" by (cases p)
  from Cons.prems have ok: "dict_ok items" and fresh: "c \<notin> fst ` set items"
    by (auto simp: dict_ok_def p)
  have none: "filter (\<lambda>(c', a). c' = c) items = []"
    using fresh by (force simp: filter_empty_conv)
  show ?case
    using Cons.IH [OF ok] none by (auto simp: p dict_get_def)
qed

lemma sum_values_add_items:
  "sum_list (dict_values (add_items tot items))
     = sum_list (dict_values tot) + sum_list (dict_values items)"
  unfolding add_items_def
proof (induction items arbitrary: tot)
  case Nil
  then show ?case by (simp add: dict_values_def)
next
  case (Cons p items)
  obtain c a where p: "p = (c, a)" by (cases p)
  show ?case
    by (simp add: p Cons.IH sum_values_set) (simp add: dict_values_def)
qed

lemma dict_ok_add_items: "dict_ok tot \<Longrightarrow> dict_ok (add_items tot items)"
  unfolding add_items_def
  by (induction items arbitrary: tot) (auto simp: dict_ok_set)

lemma dict_set_present:
  "k \<notin> fst ` set xs \<Longrightarrow> dict_set (xs @ (k, v) # ys) k w = xs @ (k, w) # ys"
  by (induction xs) auto

lemma dict_get_present:
  "k \<notin> fst ` set xs \<Longrightarrow> dict_get (xs @ (k, v) # ys) k dflt = v"
  by (induction xs) (auto simp: dict_get_def)

lemma effective_cost_fold:
  "distinct (map fst (xs @ ys)) \<Longrightarrow>
   fold (\<lambda>color e. dict_set e color (max 0 (dict_get e color 0 - r color))) (map fst ys) (xs @ ys)
     = xs @ map (\<lambda>(k, v). (k, max 0 (v - r k))) ys"
proof (induction ys arbitrary: xs)
  case Nil
  then show ?case by simp
next
  case (Cons p ys)
  obtain k v where p: "p = (k, v)" by (cases p)
  from Cons.prems have fresh: "k \<notin> fst ` set xs"
    by (auto simp: p)
  from Cons.prems have "distinct (map fst ((xs @ [(k, max 0 (v - r k))]) @ ys))"
    by (auto simp: p)
  from Cons.IH [OF this] show ?case
    by (simp add: p dict_set_present [OF fresh] dict_get_present [OF fresh])
qed

lemma effective_cost_map:
  assumes "dict_ok commander_cost"
  shows "fold (\<lambda>color e. dict_set e color (max 0 (dict_get e color 0 - r color)))
           (dict_keys commander_cost) commander_cost
         = map (\<lambda>(k, v). (k, max 0 (v - r k))) commander_cost"
  using effective_cost_fold [of "[]" commander_cost r] assms
  by (simp add: dict_ok_def dict_keys_def)

lemma dict_get_mapped:
  "k \<in> set (dict_keys d) \<Longrightarrow>
   dict_get (map (\<lambda>(k, v). (k, max 0 (v - r k))) d) k 0 = max 0 (dict_get d k 0 - r k)"
  by (induction d) (auto simp: dict_get_def dict_keys_def)

lemma dict_get_at_key:
  "dict_ok d \<Longrightarrow> (k, v) \<in> set d \<Longrightarrow> dict_get d k dflt = v"
  by (simp add: dict_get_def dict_ok_def)

lemma sum_values_mapped:
  assumes "dict_ok d"
  shows "sum_list (dict_values (map (\<lambda>(k, v). (k, max 0 (v - r k))) d))
         = sum_list (map (\<lambda>k. max 0 (dict_get d k 0 - r k)) (dict_keys d))"
proof -
  have "map (snd \<circ> (\<lambda>(k, v). (k, max 0 (v - r k)))) d
        = map ((\<lambda>k. max 0 (dict_get d k 0 - r k)) \<circ> fst) d"
    by (rule map_cong [OF refl]) (auto simp: dict_get_at_key [OF assms])
  then show ?thesis
    unfolding dict_values_def dict_keys_def map_map by (rule arg_cong)
qed

lemma reductions_fold_get:
  "dict_get (fold (\<lambda>(c, _) r. add_items r (cost_reduction c)) bf r0) k 0
     = dict_get r0 k 0
       + sum_list (map (\<lambda>(c, _). sum_list (map snd (filter (\<lambda>(c', a). c' = k) (cost_reduction c)))) bf)"
  by (induction bf arbitrary: r0) (auto simp: dict_get_add_items)

lemma battlefield_reduction_untargeted:
  "\<forall>(c, t) \<in> set bf. dict_get (cost_reduction c) color 0 = 0 \<Longrightarrow>
   battlefield_reduction bf color = 0"
  unfolding battlefield_reduction_def by (induction bf) auto

lemma reductions_battlefield:
  assumes "\<forall>(c, t) \<in> set bf. dict_ok (cost_reduction c)"
  shows "dict_get (fold (\<lambda>(c, _) r. add_items r (cost_reduction c)) bf []) k 0
         = battlefield_reduction bf k"
proof -
  have "sum_list (map (\<lambda>(c, _). sum_list (map snd (filter (\<lambda>(c', a). c' = k) (cost_reduction c)))) bf)
        = battlefield_reduction bf k"
    using assms
  proof (induction bf)
    case Nil
    then show ?case by (simp add: battlefield_reduction_def)
  next
    case (Cons p bf)
    obtain c t where p: "p = (c, t)" by (cases p)
    from Cons.prems have ok: "dict_ok (cost_reduction c)"
      and rest: "\<forall>(c, t) \<in> set bf. dict_ok (cost_reduction c)"
      by (auto simp: p)
    show ?case
      using Cons.IH [OF rest] sum_matching_items [OF ok, of k]
      by (simp add: p battlefield_reduction_def)
  qed
  moreover have "dict_get ([] :: dict) k 0 = 0"
    by (simp add: dict_get_def)
  ultimately show ?thesis
    by (simp add: reductions_fold_get)
qed

lemma reductions_of_reducers:
  "\<forall>(c, t) \<in> set bf. card_ok c \<Longrightarrow> battlefield_reduction bf color = total_reduction bf color"
  unfolding battlefield_reduction_def total_reduction_def
  by (induction bf) (auto simp: card_ok_def dict_get_def)

section \<open>Zone moves of version 3\<close>

lemma pop_n_mset:
  "pop_n n xs popped = Inr (h, d) \<Longrightarrow> mset h + mset d = mset popped + mset xs"
proof (induction n arbitrary: xs popped)
  case 0
  then show ?case by auto
next
  case (Suc n)
  from Suc.prems have ne: "xs \<noteq> []" and rest: "pop_n n (butlast xs) (popped @ [last xs]) = Inr (h, d)"
    by (auto split: if_splits)
  have "mset (butlast xs) + {#last xs#} = mset xs"
    using ne by (metis append_butlast_last_id mset.simps(1,2) mset_append union_mset_add_mset_right add.right_neutral)
  with Suc.IH [OF rest] show ?case
    by (simp add: ac_simps)
qed

lemma pop_n_result:
  "pop_n n xs popped =
     (if length xs < n then Inl IndexError
      else Inr (popped @ take n (rev xs), take (length xs - n) xs))"
proof (induction n arbitrary: xs popped)
  case 0
  then show ?case by simp
next
  case (Suc n)
  show ?case
  proof (cases xs rule: rev_cases)
    case Nil
    then show ?thesis by simp
  next
    case (snoc ys y)
    then show ?thesis by (simp add: Suc.IH)
  qed
qed

lemma find_in_set: "find P xs = Some x \<Longrightarrow> x \<in> set xs \<and> P x"
  by (auto simp: find_Some_iff)

lemma play_permanents_None:
  "find (deployable g) (hand g) = None \<Longrightarrow> play_permanents g = g"
  by (subst play_permanents.simps) simp

lemma play_permanents_Some:
  "find (deployable g) (hand g) = Some c \<Longrightarrow>
   play_permanents g
     = play_permanents (g\<lparr>battlefield := battlefield g @ [(c, turn g)], hand := remove1 c (hand g)\<rparr>)"
  by (subst play_permanents.simps) simp

lemma zone_cards_draw: "zone_cards (draw g) = zone_cards g"
proof (cases "deck g = []")
  case True
  then show ?thesis by (simp add: draw_def)
next
  case False
  then have "mset (butlast (deck g)) + {#last (deck g)#} = mset (deck g)"
    by (metis append_butlast_last_id mset.simps(1,2) mset_append union_mset_add_mset_right add.right_neutral)
  then show ?thesis
    using False by (simp add: draw_def zone_cards_def ac_simps)
qed

lemma zone_cards_play_land: "zone_cards (snd (play_land g)) = zone_cards g"
  by (auto simp: play_land_def zone_cards_def split: option.splits dest!: find_in_set)

lemma zone_cards_play_permanents: "zone_cards (play_permanents g) = zone_cards g"
proof (induction g rule: play_permanents.induct)
  case (1 g)
  show ?case
  proof (cases "find (deployable g) (hand g)")
    case None
    then show ?thesis by (simp add: play_permanents_None)
  next
    case (Some c)
    then have "c \<in> set (hand g)" by (auto dest: find_in_set)
    then show ?thesis
      using "1.IH" [OF Some] by (simp add: play_permanents_Some [OF Some] zone_cards_def)
  qed
qed

lemma zone_cards_turn_body: "zone_cards (turn_body g) = zone_cards g"
proof -
  have "zone_cards (g\<lparr>turn := turn g + 1, lands_played := 0\<rparr>) = zone_cards g"
    by (simp add: zone_cards_def)
  then show ?thesis
    by (simp add: turn_body_def Let_def zone_cards_play_permanents zone_cards_play_land zone_cards_draw)
qed

lemma zone_cards_turns: "zone_cards ((turn_body ^^ k) g) = zone_cards g"
  by (induction k) (simp_all add: zone_cards_turn_body)

lemma zone_cards_size:
  "size (zone_cards g) = length (deck g) + length (hand g) + length (battlefield g)"
  by (simp add: zone_cards_def)

lemma zone_cards_Game:
  assumes "mset (shuffle template) = mset template" and "Game shuffle template = Inr g"
  shows "zone_cards g = mset template"
proof -
  from assms(2) obtain h d where pop: "pop_n 7 (shuffle template) [] = Inr (h, d)"
    and g: "g = \<lparr>turn = 0, deck = d, hand = h, battlefield = [], lands_played = 0\<rparr>"
    by (auto simp: Game_def split: sum.splits)
  from pop_n_mset [OF pop] assms(1) show ?thesis
    by (simp add: g zone_cards_def ac_simps)
qed

section \<open>The loops of version 3\<close>

lemma turn_play_permanents: "turn (play_permanents g) = turn g"
proof (induction g rule: play_permanents.induct)
  case (1 g)
  show ?case
  proof (cases "find (deployable g) (hand g)")
    case None
    then show ?thesis by (simp add: play_permanents_None)
  next
    case (Some c)
    with "1.IH" [OF Some] show ?thesis by (simp add: play_permanents_Some [OF Some])
  qed
qed

lemma turn_turn_body: "turn (turn_body g) = turn g + 1"
  by (simp add: turn_body_def Let_def turn_play_permanents play_land_def draw_def split: option.splits)

lemma play_permanents_passes:
  "length (battlefield (play_permanents g)) - length (battlefield g) \<le> length (hand g)
   \<and> length (battlefield g) \<le> length (battlefield (play_permanents g))
   \<and> length (hand (play_permanents g)) + (length (battlefield (play_permanents g)) - length (battlefield g))
       = length (hand g)"
proof (induction g rule: play_permanents.induct)
  case (1 g)
  show ?case
  proof (cases "find (deployable g) (hand g)")
    case None
    then show ?thesis by (simp add: play_permanents_None)
  next
    case (Some c)
    then have "c \<in> set (hand g)" by (auto dest: find_in_set)
    then have "length (remove1 c (hand g)) + 1 = length (hand g)"
      using length_pos_if_in_set [of c "hand g"] by (simp add: length_remove1)
    with "1.IH" [OF Some] show ?thesis
      by (simp add: play_permanents_Some [OF Some]) linarith
  qed
qed

lemma play_permanents_settled:
  "find (deployable (play_permanents g)) (hand (play_permanents g)) = None"
proof (induction g rule: play_permanents.induct)
  case (1 g)
  show ?case
  proof (cases "find (deployable g) (hand g)")
    case None
    then show ?thesis by (simp add: play_permanents_None)
  next
    case (Some c)
    with "1.IH" [OF Some] show ?thesis by (simp add: play_permanents_Some [OF Some])
  qed
qed

lemma play_until_commander_run:
  "\<exists>k. snd (play_until_commander g commander_cost max_turns) = (turn_body ^^ k) g
       \<and> int k = turn (snd (play_until_commander g commander_cost max_turns)) - turn g
       \<and> int k \<le> max 0 (max_turns - turn g)
       \<and> (case fst (play_until_commander g commander_cost max_turns) of
            None \<Rightarrow> int k = max 0 (max_turns - turn g)
          | Some t \<Rightarrow> t = turn g + int k \<and> 0 < k
               \<and> can_cast_commander ((turn_body ^^ k) g) commander_cost)"
proof (induction g commander_cost max_turns rule: play_until_commander.induct)
  case (1 g commander_cost max_turns)
  show ?case
  proof (cases "turn g < max_turns")
    case False
    then have "play_until_commander g commander_cost max_turns = (None, g)"
      by (subst play_until_commander.simps) simp
    with False show ?thesis
      by (intro exI [of _ 0]) simp
  next
    case True
    show ?thesis
    proof (cases "can_cast_commander (turn_body g) commander_cost")
      case cast: True
      have "play_until_commander g commander_cost max_turns = (Some (turn (turn_body g)), turn_body g)"
        using True cast by (subst play_until_commander.simps) (simp add: Let_def)
      with True cast show ?thesis
        by (intro exI [of _ 1]) (simp add: turn_turn_body)
    next
      case nocast: False
      have eq: "play_until_commander g commander_cost max_turns
                = play_until_commander (turn_body g) commander_cost max_turns"
        using True nocast by (subst play_until_commander.simps) (simp add: Let_def)
      from "1.IH" [OF True refl nocast] obtain k where
        k: "snd (play_until_commander (turn_body g) commander_cost max_turns) = (turn_body ^^ k) (turn_body g)"
          "int k = turn (snd (play_until_commander (turn_body g) commander_cost max_turns)) - turn (turn_body g)"
          "int k \<le> max 0 (max_turns - turn (turn_body g))"
          "(case fst (play_until_commander (turn_body g) commander_cost max_turns) of
              None \<Rightarrow> int k = max 0 (max_turns - turn (turn_body g))
            | Some t \<Rightarrow> t = turn (turn_body g) + int k \<and> 0 < k
                 \<and> can_cast_commander ((turn_body ^^ k) (turn_body g)) commander_cost)"
        by blast
      show ?thesis
        using k True
        by (intro exI [of _ "Suc k"])
          (auto simp: eq turn_turn_body funpow_swap1 split: option.splits)
    qed
  qed
qed

section \<open>Mana\<close>

lemma mana_fold_get:
  "dict_get (fold (\<lambda>(c, t) tot. if P c t then add_items tot (produce_mana c) else tot) bf t0) k 0
     = dict_get t0 k 0
       + sum_list (map (\<lambda>(c, t). sum_list (map snd (filter (\<lambda>(c', a). c' = k) (produce_mana c))))
                    (filter (\<lambda>(c, t). P c t) bf))"
  by (induction bf arbitrary: t0) (auto simp: dict_get_add_items)

lemma mana_fold_sum:
  "sum_list (dict_values (fold (\<lambda>(c, t) tot. if P c t then add_items tot (produce_mana c) else tot) bf t0))
     = sum_list (dict_values t0)
       + sum_list (map (\<lambda>(c, t). sum_list (dict_values (produce_mana c))) (filter (\<lambda>(c, t). P c t) bf))"
  by (induction bf arbitrary: t0) (auto simp: sum_values_add_items)

lemma available_mana_sums:
  assumes "\<forall>(c, t) \<in> set (battlefield g). dict_ok (mana c)"
  shows "dict_get (available_mana g) color 0
           = sum_list (map (\<lambda>(c, t). dict_get (produce_mana c) color 0) (producing g))"
    and "sum_list (dict_values (available_mana g))
           = sum_list (map (\<lambda>(c, t). sum_list (dict_values (produce_mana c))) (producing g))"
proof -
  have empty: "dict_get ([] :: dict) color 0 = 0"
    by (simp add: dict_get_def)
  have eq: "sum_list (map (\<lambda>(c, t). sum_list (map snd (filter (\<lambda>(c', a). c' = color) (produce_mana c))))
                       (producing g))
            = sum_list (map (\<lambda>(c, t). dict_get (produce_mana c) color 0) (producing g))"
    by (rule arg_cong [where f = sum_list], rule map_cong [OF refl])
      (use assms in \<open>auto simp: producing_def produce_mana_def sum_matching_items\<close>)
  show "dict_get (available_mana g) color 0
           = sum_list (map (\<lambda>(c, t). dict_get (produce_mana c) color 0) (producing g))"
    unfolding available_mana_def mana_fold_get producing_def [symmetric] empty eq
    by simp
  show "sum_list (dict_values (available_mana g))
           = sum_list (map (\<lambda>(c, t). sum_list (dict_values (produce_mana c))) (producing g))"
    unfolding available_mana_def mana_fold_sum producing_def [symmetric]
    by (simp add: dict_values_def)
qed

section \<open>Engine range and harness\<close>

lemma Game_fresh: "Game shuffle template = Inr g \<Longrightarrow> turn g = 0 \<and> battlefield g = []"
  by (auto simp: Game_def split: sum.splits)

lemma engine_range:
  assumes "fst (play_until_commander g commander_cost max_turns) = Some t"
  shows "turn g < t \<and> t \<le> max_turns"
proof -
  from play_until_commander_run [of g commander_cost max_turns] assms
  obtain k where "int k \<le> max 0 (max_turns - turn g)" "t = turn g + int k" "0 < k"
    by auto
  then show ?thesis by auto
qed

lemma trial_loop_collect:
  "trial_loop shuf template commander_cost trial_numbers results = Inr out \<Longrightarrow>
   out = results @ successes shuf template commander_cost trial_numbers
   \<and> (\<forall>i \<in> set trial_numbers. \<exists>r. trial_result shuf template commander_cost i = Inr r)"
proof (induction trial_numbers arbitrary: results)
  case Nil
  then show ?case by (simp add: successes_def)
next
  case (Cons i rest)
  from Cons.prems obtain g where g: "Game (shuf i) template = Inr g"
    by (auto split: sum.splits)
  define r where "r = fst (play_until_commander g commander_cost 20)"
  have tr: "trial_result shuf template commander_cost i = Inr r"
    by (simp add: trial_result_def g r_def)
  have kept: "(case r of Some t \<Rightarrow> if truthy r then results @ [t] else results | None \<Rightarrow> results)
              = results @ (case r of Some t \<Rightarrow> [t] | None \<Rightarrow> [])"
  proof (cases r)
    case None
    then show ?thesis by simp
  next
    case (Some t)
    then have "turn g < t"
      using engine_range [of g commander_cost 20 t] by (simp add: r_def)
    with Game_fresh [OF g] Some show ?thesis
      by (simp add: truthy_def)
  qed
  from Cons.prems have
    "trial_loop shuf template commander_cost rest
       (results @ (case r of Some t \<Rightarrow> [t] | None \<Rightarrow> [])) = Inr out"
    by (simp add: g Let_def r_def [symmetric] kept)
  from Cons.IH [OF this] show ?case
    by (auto simp: successes_def tr split: option.splits)
qed

lemma successes_count:
  "\<forall>i \<in> set trial_numbers. \<exists>r. trial_result shuf template commander_cost i = Inr r \<Longrightarrow>
   length (successes shuf template commander_cost trial_numbers)
     = length (filter (\<lambda>i. trial_result shuf template commander_cost i \<noteq> Inr None) trial_numbers)"
  by (induction trial_numbers) (auto simp: successes_def split: sum.splits option.splits)

lemma trial_loop_total:
  assumes "\<forall>i \<in> set trial_numbers. \<exists>r. trial_result shuf template commander_cost i = Inr r"
  shows "trial_loop shuf template commander_cost trial_numbers results
         = Inr (results @ successes shuf template commander_cost trial_numbers)"
  using assms
proof (induction trial_numbers arbitrary: results)
  case Nil
  then show ?case by (simp add: successes_def)
next
  case (Cons i rest)
  from Cons.prems obtain g where g: "Game (shuf i) template = Inr g"
    by (auto simp: trial_result_def split: sum.splits)
  define r where "r = fst (play_until_commander g commander_cost 20)"
  have tr: "trial_result shuf template commander_cost i = Inr r"
    by (simp add: trial_result_def g r_def)
  have kept: "(case r of Some t \<Rightarrow> if truthy r then results @ [t] else results | None \<Rightarrow> results)
              = results @ (case r of Some t \<Rightarrow> [t] | None \<Rightarrow> [])"
  proof (cases r)
    case None
    then show ?thesis by simp
  next
    case (Some t)
    then have "turn g < t"
      using engine_range [of g commander_cost 20 t] by (simp add: r_def)
    with Game_fresh [OF g] Some show ?thesis
      by (simp add: truthy_def)
  qed
  from Cons.prems have rest: "\<forall>i \<in> set rest. \<exists>r. trial_result shuf template commander_cost i = Inr r"
    by simp
  have "trial_loop shuf template commander_cost (i # rest) results
        = trial_loop shuf template commander_cost rest
            (results @ (case r of Some t \<Rightarrow> [t] | None \<Rightarrow> []))"
    by (simp add: g Let_def r_def [symmetric] kept)
  also have "\<dots> = Inr ((results @ (case r of Some t \<Rightarrow> [t] | None \<Rightarrow> []))
                        @ successes shuf template commander_cost rest)"
    by (rule Cons.IH [OF rest])
  also have "\<dots> = Inr (results @ successes shuf template commander_cost (i # rest))"
    by (simp add: successes_def tr split: option.splits)
  finally show ?case .
qed

section \<open>A deck of lands, version 3\<close>

lemma find_first:
  "xs \<noteq> [] \<Longrightarrow> list_all P xs \<Longrightarrow> find P xs = Some (hd xs)"
  by (cases xs) auto

lemma find_none: "list_all (\<lambda>x. \<not> P x) xs \<Longrightarrow> find P xs = None"
  by (induction xs) auto

lemma reductions_empty:
  "list_all (\<lambda>(c, t). cost_reduction c = []) bf \<Longrightarrow>
   fold (\<lambda>(c, _) r. add_items r (cost_reduction c)) bf r0 = r0"
  by (induction bf arbitrary: r0) (auto simp: add_items_def)

lemma lands_mana_total:
  assumes "list_all (\<lambda>(c, t). colorless_land c) (battlefield g)"
  shows "sum_list (dict_values (available_mana g)) = int (length (battlefield g))"
proof -
  have all: "filter (\<lambda>(c, t). can_produce_mana c t (turn g)) (battlefield g) = battlefield g"
    using assms by (auto simp: list_all_iff colorless_land_def can_produce_mana_def filter_id_conv)
  have one: "sum_list (map (\<lambda>(c, t). sum_list (dict_values (produce_mana c))) bf) = int (length bf)"
    if "list_all (\<lambda>(c, t). colorless_land c) bf" for bf :: "(card \<times> int) list"
    using that by (induction bf) (auto simp: colorless_land_def produce_mana_def dict_values_def)
  have empty: "sum_list (dict_values ([] :: dict)) = 0"
    by (simp add: dict_values_def)
  show ?thesis
    unfolding available_mana_def mana_fold_sum all empty
    by (simp add: one [OF assms])
qed

lemma lands_can_cast:
  assumes "list_all (\<lambda>(c, t). colorless_land c) (battlefield g)"
  shows "can_cast_commander g [(''colorless'', 6)] \<longleftrightarrow> 6 \<le> length (battlefield g)"
proof -
  have "list_all (\<lambda>(c, t). cost_reduction c = []) (battlefield g)"
    using assms by (auto simp: list_all_iff colorless_land_def)
  then have red: "fold (\<lambda>(c, _) r. add_items r (cost_reduction c)) (battlefield g) [] = []"
    by (rule reductions_empty)
  show ?thesis
    by (simp add: can_cast_commander_def red dict_keys_def dict_get_def dict_values_def
          lands_mana_total [OF assms, unfolded dict_values_def])
qed

lemma lands_only_turn:
  assumes inv: "lands_only g" and few: "length (battlefield g) < 7"
  shows "lands_only (turn_body g) \<and> length (battlefield (turn_body g)) = length (battlefield g) + 1"
proof -
  define g3 where "g3 = draw (g\<lparr>turn := turn g + 1, lands_played := 0\<rparr>)"
  have g3: "list_all colorless_land (deck g3)" "list_all colorless_land (hand g3)"
    "battlefield g3 = battlefield g" "turn g3 = turn g + 1" "lands_played g3 = 0"
    "length (hand g) \<le> length (hand g3)"
    using inv by (auto simp: g3_def draw_def lands_only_def list_all_iff dest: in_set_butlastD)
  from inv few g3(6) have ne: "hand g3 \<noteq> []"
    by (auto simp: lands_only_def)
  have "list_all (\<lambda>c. ctype c = ''land'') (hand g3)"
    using g3(2) by (auto simp: list_all_iff colorless_land_def)
  from find_first [OF ne this] have found: "find (\<lambda>c. ctype c = ''land'') (hand g3) = Some (hd (hand g3))" .
  define g4 where "g4 = snd (play_land g3)"
  have g4: "g4 = g3\<lparr>battlefield := battlefield g3 @ [(hd (hand g3), turn g3)],
                    hand := remove1 (hd (hand g3)) (hand g3), lands_played := 1\<rparr>"
    by (simp add: g4_def play_land_def g3(5) found)
  have hd_land: "colorless_land (hd (hand g3))"
    using ne g3(2) by (cases "hand g3") auto
  have hand4: "list_all colorless_land (hand g4)"
    using g3(2) by (auto simp: g4 list_all_iff dest: notin_set_remove1)
  have len4: "length (hand g4) + 1 = length (hand g3)"
    using ne by (cases "hand g3") (auto simp: g4)
  have "list_all (\<lambda>c. \<not> deployable g4 c) (hand g4)"
    using hand4 by (auto simp: list_all_iff deployable_def colorless_land_def)
  then have "find (deployable g4) (hand g4) = None"
    by (rule find_none)
  then have pp: "play_permanents g4 = g4"
    by (rule play_permanents_None)
  have body: "turn_body g = g4"
    by (simp add: turn_body_def Let_def g4_def g3_def pp [unfolded g4_def g3_def])
  show ?thesis
    unfolding body
    using inv g3 hd_land hand4 len4
    by (auto simp: lands_only_def g4)
qed

lemma lands_only_cast:
  assumes "lands_only g" and "length (battlefield g) \<le> 5" and "6 \<le> max_turns"
  shows "fst (play_until_commander g [(''colorless'', 6)] max_turns) = Some 6"
  using assms
proof (induction "5 - length (battlefield g)" arbitrary: g)
  case 0
  then have five: "length (battlefield g) = 5" by simp
  from lands_only_turn [OF "0.prems"(1)] five
  have step: "lands_only (turn_body g)" "length (battlefield (turn_body g)) = 6" by auto
  then have bf: "list_all (\<lambda>(c, t). colorless_land c) (battlefield (turn_body g))"
    and t: "turn (turn_body g) = 6"
    by (auto simp: lands_only_def)
  have "turn g < max_turns"
    using "0.prems" five by (simp add: lands_only_def)
  then show ?case
    by (subst play_until_commander.simps) (simp add: Let_def lands_can_cast [OF bf] step(2) t)
next
  case (Suc n)
  then have less: "length (battlefield g) < 5" by simp
  from lands_only_turn [OF Suc.prems(1)] less
  have step: "lands_only (turn_body g)" "length (battlefield (turn_body g)) = length (battlefield g) + 1"
    by auto
  then have bf: "list_all (\<lambda>(c, t). colorless_land c) (battlefield (turn_body g))"
    by (auto simp: lands_only_def)
  have "turn g < max_turns"
    using Suc.prems less by (simp add: lands_only_def)
  moreover have "\<not> can_cast_commander (turn_body g) [(''colorless'', 6)]"
    using less by (simp add: lands_can_cast [OF bf] step(2))
  moreover have "fst (play_until_commander (turn_body g) [(''colorless'', 6)] max_turns) = Some 6"
    using Suc.hyps(2) less step by (intro Suc.hyps(1)) (simp_all add: Suc.prems(3))
  ultimately show ?case
    by (subst play_until_commander.simps) (simp add: Let_def)
qed

lemma Game_result:
  "Game shuffle template =
     (if length (shuffle template) < 7 then Inl IndexError
      else Inr \<lparr>turn = 0, deck = take (length (shuffle template) - 7) (shuffle template),
                hand = take 7 (rev (shuffle template)), battlefield = [], lands_played = 0\<rparr>)"
  by (simp add: Game_def pop_n_result)

lemma lands_only_Game:
  assumes perm: "mset (shuffle template) = mset template"
    and lands: "list_all colorless_land template" and size: "7 \<le> length template"
  shows "\<exists>g. Game shuffle template = Inr g \<and> lands_only g \<and> battlefield g = []"
proof -
  from perm have len: "length (shuffle template) = length template"
    by (metis size_mset)
  from perm have same: "set (shuffle template) = set template"
    by (metis set_mset_mset)
  have all: "list_all colorless_land (shuffle template)"
    using lands same by (simp add: list_all_iff)
  show ?thesis
    using size all
    by (auto simp: Game_result len lands_only_def list_all_iff dest: in_set_takeD)
qed

section \<open>The loops of version 1\<close>

lemma play_rocks_None:
  "find (affordable_rock g) (hand_v1 g) = None \<Longrightarrow> play_rocks g = g"
  by (subst play_rocks.simps) simp

lemma play_rocks_Some:
  "find (affordable_rock g) (hand_v1 g) = Some c \<Longrightarrow>
   play_rocks g
     = play_rocks (g\<lparr>battlefield_v1 := battlefield_v1 g @ [c], hand_v1 := remove1 c (hand_v1 g)\<rparr>)"
  by (subst play_rocks.simps) simp

lemma turn_play_rocks: "turn_v1 (play_rocks g) = turn_v1 g"
proof (induction g rule: play_rocks.induct)
  case (1 g)
  show ?case
  proof (cases "find (affordable_rock g) (hand_v1 g)")
    case None
    then show ?thesis by (simp add: play_rocks_None)
  next
    case (Some c)
    with "1.IH" [OF Some] show ?thesis by (simp add: play_rocks_Some [OF Some])
  qed
qed

lemma turn_turn_body_v1: "turn_v1 (turn_body_v1 g) = turn_v1 g + 1"
  by (simp add: turn_body_v1_def Let_def turn_play_rocks play_land_v1_def draw_v1_def
        split: option.splits)

lemma engine_range_v1:
  "fst (play_until_commander_v1 g commander_cost max_turns) = Some t \<Longrightarrow>
   turn_v1 g < t \<and> t \<le> max_turns"
proof (induction g commander_cost max_turns rule: play_until_commander_v1.induct)
  case (1 g commander_cost max_turns)
  show ?case
  proof (cases "turn_v1 g < max_turns")
    case False
    with "1.prems" show ?thesis
      by (subst (asm) play_until_commander_v1.simps) simp
  next
    case True
    show ?thesis
    proof (cases "available_mana_v1 (turn_body_v1 g) \<ge> commander_cost")
      case cast: True
      with "1.prems" True show ?thesis
        by (subst (asm) play_until_commander_v1.simps) (auto simp: Let_def turn_turn_body_v1)
    next
      case nocast: False
      from "1.prems" True nocast
      have "fst (play_until_commander_v1 (turn_body_v1 g) commander_cost max_turns) = Some t"
        by (subst (asm) play_until_commander_v1.simps) (simp add: Let_def)
      from "1.IH" [OF True refl nocast this] show ?thesis
        by (simp add: turn_turn_body_v1)
    qed
  qed
qed

lemma Game_v1_result:
  "Game_v1 shuffle template =
     (if length (shuffle template) < 7 then Inl IndexError
      else Inr \<lparr>turn_v1 = 0, deck_v1 = take (length (shuffle template) - 7) (shuffle template),
                hand_v1 = take 7 (rev (shuffle template)), battlefield_v1 = [],
                lands_played_v1 = 0\<rparr>)"
  by (simp add: Game_v1_def pop_n_result)

section \<open>A deck of lands, version 1\<close>

lemma lands_mana_v1:
  "list_all (\<lambda>c. c = Land_v1) (battlefield_v1 g) \<Longrightarrow>
   available_mana_v1 g = int (length (battlefield_v1 g))"
proof -
  have "list_all (\<lambda>c. c = Land_v1) bf \<Longrightarrow>
        sum_list (map (\<lambda>c. dict_get (mana_v1 c) ''colorless'' 0) bf) = int (length bf)"
    for bf :: "card_v1 list"
    by (induction bf) (auto simp: Land_v1_def dict_get_def)
  then show "list_all (\<lambda>c. c = Land_v1) (battlefield_v1 g) \<Longrightarrow>
             available_mana_v1 g = int (length (battlefield_v1 g))"
    by (simp add: available_mana_v1_def)
qed

lemma lands_only_turn_v1:
  assumes inv: "lands_only_v1 g" and few: "length (battlefield_v1 g) < 7"
  shows "lands_only_v1 (turn_body_v1 g)
         \<and> length (battlefield_v1 (turn_body_v1 g)) = length (battlefield_v1 g) + 1"
proof -
  define g3 where "g3 = draw_v1 (g\<lparr>turn_v1 := turn_v1 g + 1, lands_played_v1 := 0\<rparr>)"
  have g3: "list_all (\<lambda>c. c = Land_v1) (deck_v1 g3)" "list_all (\<lambda>c. c = Land_v1) (hand_v1 g3)"
    "battlefield_v1 g3 = battlefield_v1 g" "turn_v1 g3 = turn_v1 g + 1" "lands_played_v1 g3 = 0"
    "length (hand_v1 g) \<le> length (hand_v1 g3)"
    using inv by (auto simp: g3_def draw_v1_def lands_only_v1_def list_all_iff dest: in_set_butlastD)
  from inv few g3(6) have ne: "hand_v1 g3 \<noteq> []"
    by (auto simp: lands_only_v1_def)
  have "list_all (\<lambda>c. type_v1 c = ''land'') (hand_v1 g3)"
    using g3(2) by (auto simp: list_all_iff Land_v1_def)
  from find_first [OF ne this]
  have found: "find (\<lambda>c. type_v1 c = ''land'') (hand_v1 g3) = Some (hd (hand_v1 g3))" .
  define g4 where "g4 = snd (play_land_v1 g3)"
  have g4: "g4 = g3\<lparr>battlefield_v1 := battlefield_v1 g3 @ [hd (hand_v1 g3)],
                    hand_v1 := remove1 (hd (hand_v1 g3)) (hand_v1 g3), lands_played_v1 := 1\<rparr>"
    by (simp add: g4_def play_land_v1_def g3(5) found)
  have hd_land: "hd (hand_v1 g3) = Land_v1"
    using ne g3(2) by (cases "hand_v1 g3") auto
  have hand4: "list_all (\<lambda>c. c = Land_v1) (hand_v1 g4)"
    using g3(2) by (auto simp: g4 list_all_iff dest: notin_set_remove1)
  have len4: "length (hand_v1 g4) + 1 = length (hand_v1 g3)"
    using ne by (cases "hand_v1 g3") (auto simp: g4)
  have "list_all (\<lambda>c. \<not> affordable_rock g4 c) (hand_v1 g4)"
    using hand4 by (auto simp: list_all_iff affordable_rock_def Land_v1_def)
  then have "find (affordable_rock g4) (hand_v1 g4) = None"
    by (rule find_none)
  then have pp: "play_rocks g4 = g4"
    by (rule play_rocks_None)
  have body: "turn_body_v1 g = g4"
    by (simp add: turn_body_v1_def Let_def g4_def g3_def pp [unfolded g4_def g3_def])
  show ?thesis
    unfolding body
    using inv g3 hd_land hand4 len4
    by (auto simp: lands_only_v1_def g4)
qed

lemma lands_only_cast_v1:
  assumes "lands_only_v1 g" and "length (battlefield_v1 g) \<le> 5" and "6 \<le> max_turns"
  shows "fst (play_until_commander_v1 g 6 max_turns) = Some 6"
  using assms
proof (induction "5 - length (battlefield_v1 g)" arbitrary: g)
  case 0
  then have five: "length (battlefield_v1 g) = 5" by simp
  from lands_only_turn_v1 [OF "0.prems"(1)] five
  have step: "lands_only_v1 (turn_body_v1 g)" "length (battlefield_v1 (turn_body_v1 g)) = 6" by auto
  then have bf: "list_all (\<lambda>c. c = Land_v1) (battlefield_v1 (turn_body_v1 g))"
    and t: "turn_v1 (turn_body_v1 g) = 6"
    by (auto simp: lands_only_v1_def)
  have "turn_v1 g < max_turns"
    using "0.prems" five by (simp add: lands_only_v1_def)
  then show ?case
    by (subst play_until_commander_v1.simps) (simp add: Let_def lands_mana_v1 [OF bf] step(2) t)
next
  case (Suc n)
  then have less: "length (battlefield_v1 g) < 5" by simp
  from lands_only_turn_v1 [OF Suc.prems(1)] less
  have step: "lands_only_v1 (turn_body_v1 g)"
    "length (battlefield_v1 (turn_body_v1 g)) = length (battlefield_v1 g) + 1"
    by auto
  then have bf: "list_all (\<lambda>c. c = Land_v1) (battlefield_v1 (turn_body_v1 g))"
    by (auto simp: lands_only_v1_def)
  have "turn_v1 g < max_turns"
    using Suc.prems less by (simp add: lands_only_v1_def)
  moreover have "\<not> available_mana_v1 (turn_body_v1 g) \<ge> 6"
    using less by (simp add: lands_mana_v1 [OF bf] step(2))
  moreover have "fst (play_until_commander_v1 (turn_body_v1 g) 6 max_turns) = Some 6"
    using Suc.hyps(2) less step by (intro Suc.hyps(1)) (simp_all add: Suc.prems(3))
  ultimately show ?case
    by (subst play_until_commander_v1.simps) (simp add: Let_def)
qed

lemma shuffle_replicate:
  "mset xs = mset (replicate n x) \<Longrightarrow> xs = replicate n x"
proof -
  assume eq: "mset xs = mset (replicate n x)"
  then have "length xs = n"
    by (metis size_mset length_replicate)
  moreover from eq have "set xs \<subseteq> {x}"
    by (metis set_mset_mset set_replicate_conv_if empty_subsetI subset_refl)
  ultimately show ?thesis
    by (metis replicate_eqI subset_singletonD empty_iff insert_iff)
qed

lemma lands_only_Game_v1:
  assumes perm: "mset (shuffle (build_deck 100 0 0)) = mset (build_deck 100 0 0)"
  shows "\<exists>g. Game_v1 shuffle (build_deck 100 0 0) = Inr g \<and> lands_only_v1 g \<and> battlefield_v1 g = []"
proof -
  have deck: "build_deck 100 0 0 = replicate 100 Land_v1"
    by (simp add: build_deck_def)
  from perm have sh: "shuffle (build_deck 100 0 0) = replicate 100 Land_v1"
    unfolding deck by (rule shuffle_replicate)
  show ?thesis
    by (auto simp: Game_v1_result sh lands_only_v1_def list_all_iff dest: in_set_takeD)
qed

section \<open>The trial loop of version 1\<close>

lemma Game_v1_fresh: "Game_v1 shuffle template = Inr g \<Longrightarrow> turn_v1 g = 0"
  by (auto simp: Game_v1_def split: sum.splits)

lemma trial_loop_v1_collect:
  assumes "\<forall>i \<in> set trial_numbers. \<exists>r. trial_result_v1 shuf template i = Inr r"
  shows "trial_loop_v1 shuf template trial_numbers results
         = Inr (results @ successes_v1 shuf template trial_numbers)"
  using assms
proof (induction trial_numbers arbitrary: results)
  case Nil
  then show ?case by (simp add: successes_v1_def)
next
  case (Cons i rest)
  from Cons.prems obtain g where g: "Game_v1 (shuf i) template = Inr g"
    by (auto simp: trial_result_v1_def split: sum.splits)
  define r where "r = fst (play_until_commander_v1 g 6 20)"
  have tr: "trial_result_v1 shuf template i = Inr r"
    by (simp add: trial_result_v1_def g r_def)
  have kept: "(case r of Some t \<Rightarrow> if truthy r then results @ [t] else results | None \<Rightarrow> results)
              = results @ (case r of Some t \<Rightarrow> [t] | None \<Rightarrow> [])"
  proof (cases r)
    case None
    then show ?thesis by simp
  next
    case (Some t)
    then have "turn_v1 g < t"
      using engine_range_v1 [of g 6 20 t] by (simp add: r_def)
    with Game_v1_fresh [OF g] Some show ?thesis
      by (simp add: truthy_def)
  qed
  from Cons.prems have rest: "\<forall>i \<in> set rest. \<exists>r. trial_result_v1 shuf template i = Inr r"
    by simp
  have "trial_loop_v1 shuf template (i # rest) results
        = trial_loop_v1 shuf template rest (results @ (case r of Some t \<Rightarrow> [t] | None \<Rightarrow> []))"
    by (simp add: g Let_def r_def [symmetric] kept)
  also have "\<dots> = Inr ((results @ (case r of Some t \<Rightarrow> [t] | None \<Rightarrow> []))
                        @ successes_v1 shuf template rest)"
    by (rule Cons.IH [OF rest])
  also have "\<dots> = Inr (results @ successes_v1 shuf template (i # rest))"
    by (simp add: successes_v1_def tr split: option.splits)
  finally show ?case .
qed

lemma successes_v1_count:
  "\<forall>i \<in> set trial_numbers. \<exists>r. trial_result_v1 shuf template i = Inr r \<Longrightarrow>
   length (successes_v1 shuf template trial_numbers)
     = length (filter (\<lambda>i. trial_result_v1 shuf template i \<noteq> Inr None) trial_numbers)"
  by (induction trial_numbers) (auto simp: successes_v1_def split: sum.splits option.splits)

section \<open>The runner on a deck of lands\<close>

lemma Counter_fold_same:
  "fold (\<lambda>t c. dict_set c t (dict_get c t 0 + 1)) (replicate n x) [(x, k)] = [(x, k + int n)]"
  by (induction n arbitrary: k) (auto simp: dict_get_def)

lemma Counter_replicate:
  "Counter (replicate n x) = (if n = 0 then [] else [(x, int n)])"
proof (cases n)
  case 0
  then show ?thesis by (simp add: Counter_def)
next
  case (Suc m)
  have "Counter (replicate (Suc m) x)
        = fold (\<lambda>t c. dict_set c t (dict_get c t 0 + 1)) (replicate m x) [(x, 1)]"
    unfolding Counter_def by (simp add: dict_get_def del: fold_replicate)
  then show ?thesis
    unfolding Suc Counter_fold_same by simp
qed

lemma trial_loop_all_six:
  assumes "\<forall>i \<in> set trial_numbers. trial_result shuf template commander_cost i = Inr (Some 6)"
  shows "trial_loop shuf template commander_cost trial_numbers results
         = Inr (results @ replicate (length trial_numbers) 6)"
  using assms
proof (induction trial_numbers arbitrary: results)
  case Nil
  then show ?case by simp
next
  case (Cons i rest)
  from Cons.prems have "trial_result shuf template commander_cost i = Inr (Some 6)"
    by simp
  then obtain g where g: "Game (shuf i) template = Inr g"
    and r: "fst (play_until_commander g commander_cost 20) = Some 6"
    by (auto simp: trial_result_def split: sum.splits)
  from Cons.prems have "\<forall>i \<in> set rest. trial_result shuf template commander_cost i = Inr (Some 6)"
    by simp
  from Cons.IH [OF this, of "results @ [6]"] show ?case
    by (simp add: g r Let_def truthy_def replicate_app_Cons_same)
qed

lemma run_simulation_all_six:
  assumes "\<forall>i. trial_result shuf template commander_cost i = Inr (Some 6)"
  shows "run_simulation shuf template commander_cost trials
         = Inr (if trials \<le> 0 then [] else [(6, trials)],
                if trials \<le> 0 then None else Some 6,
                if trials \<le> 0 then 0 else trials)"
proof -
  have loop: "trial_loop shuf template commander_cost [0..<nat trials] []
              = Inr (replicate (nat trials) 6)"
    using trial_loop_all_six [of "[0..<nat trials]" shuf template commander_cost "[]"] assms
    by simp
  have avg: "of_int (sum_list (replicate (nat trials) 6)) / of_int (int (length (replicate (nat trials) (6 :: int))))
             = (6 :: rat)" if "0 < trials"
    using that by (simp add: sum_list_replicate)
  show ?thesis
    unfolding run_simulation_def loop
    using avg by (auto simp: Counter_replicate)
qed

section \<open>A deck of fillers, version 1\<close>

lemma barren_turn_v1:
  assumes "barren_v1 g"
  shows "barren_v1 (turn_body_v1 g)"
proof -
  define g3 where "g3 = draw_v1 (g\<lparr>turn_v1 := turn_v1 g + 1, lands_played_v1 := 0\<rparr>)"
  have g3: "barren_v1 g3"
    using assms by (auto simp: g3_def draw_v1_def barren_v1_def list_all_iff dest: in_set_butlastD)
  then have "list_all (\<lambda>c. \<not> type_v1 c = ''land'') (hand_v1 g3)"
    by (auto simp: barren_v1_def list_all_iff Filler_v1_def)
  then have "find (\<lambda>c. type_v1 c = ''land'') (hand_v1 g3) = None"
    by (rule find_none)
  then have land: "snd (play_land_v1 g3) = g3"
    by (simp add: play_land_v1_def)
  from g3 have "list_all (\<lambda>c. \<not> affordable_rock g3 c) (hand_v1 g3)"
    by (auto simp: barren_v1_def list_all_iff Filler_v1_def affordable_rock_def)
  then have "find (affordable_rock g3) (hand_v1 g3) = None"
    by (rule find_none)
  then have "play_rocks g3 = g3"
    by (rule play_rocks_None)
  then have "turn_body_v1 g = g3"
    by (simp add: turn_body_v1_def Let_def g3_def [symmetric] land)
  with g3 show ?thesis by simp
qed

lemma barren_timeout_v1:
  "barren_v1 g \<Longrightarrow> fst (play_until_commander_v1 g 6 max_turns) = None"
proof (induction g "6 :: int" max_turns rule: play_until_commander_v1.induct)
  case (1 g max_turns)
  show ?case
  proof (cases "turn_v1 g < max_turns")
    case False
    then show ?thesis by (subst play_until_commander_v1.simps) simp
  next
    case True
    from barren_turn_v1 [OF "1.prems"] have next_barren: "barren_v1 (turn_body_v1 g)" .
    then have nocast: "\<not> 6 \<le> available_mana_v1 (turn_body_v1 g)"
      by (simp add: barren_v1_def available_mana_v1_def)
    from "1.hyps" [OF True refl nocast next_barren] True nocast show ?thesis
      by (subst play_until_commander_v1.simps) (simp add: Let_def)
  qed
qed

lemma trial_loop_v1_barren:
  assumes "\<forall>i \<in> set trial_numbers. \<exists>g. Game_v1 (shuf i) template = Inr g \<and> barren_v1 g"
  shows "trial_loop_v1 shuf template trial_numbers results = Inr results"
  using assms
proof (induction trial_numbers arbitrary: results)
  case Nil
  then show ?case by simp
next
  case (Cons i rest)
  from Cons.prems obtain g where g: "Game_v1 (shuf i) template = Inr g" "barren_v1 g"
    by auto
  from Cons.prems have "\<forall>i \<in> set rest. \<exists>g. Game_v1 (shuf i) template = Inr g \<and> barren_v1 g"
    by simp
  from Cons.IH [OF this] show ?case
    by (simp add: g(1) barren_timeout_v1 [OF g(2)])
qed

lemma barren_Game_v1:
  assumes perm: "mset (shuffle (build_deck 0 0 100)) = mset (build_deck 0 0 100)"
  shows "\<exists>g. Game_v1 shuffle (build_deck 0 0 100) = Inr g \<and> barren_v1 g"
proof -
  have deck: "build_deck 0 0 100 = replicate 100 Filler_v1"
    by (simp add: build_deck_def)
  from perm have sh: "shuffle (build_deck 0 0 100) = replicate 100 Filler_v1"
    unfolding deck by (rule shuffle_replicate)
  show ?thesis
    by (auto simp: Game_v1_result sh barren_v1_def list_all_iff dest: in_set_takeD)
qed

lemma run_simulation_no_data:
  "run_simulation shuf template commander_cost trials = Inr (counts, avg, n) \<Longrightarrow>
   (avg = None \<longleftrightarrow> n = 0)"
  by (auto simp: run_simulation_def split: sum.splits if_splits)

section \<open>Version 4 and the entry turn\<close>

lemma simulate_game_deck:
  "snd (snd (simulate_game shuffle st deck_list commander_cost max_turns)) = shuffle deck_list"
  by (simp add: simulate_game_def Let_def case_prod_beta)

lemma run_simulations_one_trial:
  "snd (snd (run_simulations shuf 1)) = shuf 0 (snd build_deck_v4)"
  by (simp add: run_simulations_def case_prod_beta simulate_game_deck)

lemma entry_turn_excluded:
  assumes "(c, t) \<in> set (producing g)"
  shows "can_produce_mana c t (turn g)"
    and "\<not> (ctype c = ''land'' \<and> enters_tapped c \<and> t = turn g)"
    and "\<not> (ctype c = ''dork'' \<and> t = turn g)"
proof -
  from assms show cpm: "can_produce_mana c t (turn g)"
    by (simp add: producing_def)
  from cpm show "\<not> (ctype c = ''land'' \<and> enters_tapped c \<and> t = turn g)"
    by (auto simp: can_produce_mana_def)
  from cpm show "\<not> (ctype c = ''dork'' \<and> t = turn g)"
    by (auto simp: can_produce_mana_def)
qed

section \<open>The permanent model\<close>

text \<open>
  C2.  \<open>can_produce_mana\<close> is false for a land exactly when the land enters tapped and the
  turn it entered is the current turn; it is true for a rock whatever the turns are; it is
  true for a dork exactly when the current turn is later than the turn it entered; and it
  is false for a reducer and for a filler whatever the turns are.
\<close>

theorem can_produce_mana_by_kind:
  "(ctype c = ''land'' \<longrightarrow>
      (\<not> can_produce_mana c turn_entered current_turn
         \<longleftrightarrow> enters_tapped c \<and> turn_entered = current_turn))
   \<and> (ctype c = ''rock'' \<longrightarrow> can_produce_mana c turn_entered current_turn)
   \<and> (ctype c = ''dork'' \<longrightarrow>
        (can_produce_mana c turn_entered current_turn \<longleftrightarrow> current_turn > turn_entered))
   \<and> (ctype c = ''reducer'' \<or> ctype c = ''filler'' \<longrightarrow>
        \<not> can_produce_mana c turn_entered current_turn)"
  by (simp add: can_produce_mana_def)

theorem can_produce_mana_by_kind_witness:
  "\<not> can_produce_mana (Card ''Temple'' ''land'' 0 (Some [(''black'', 1)]) True False None) 3 3
   \<and> can_produce_mana (Card ''Temple'' ''land'' 0 (Some [(''black'', 1)]) True False None) 3 4
   \<and> can_produce_mana (Card ''Swamp'' ''land'' 0 (Some [(''black'', 1)]) False False None) 3 3
   \<and> can_produce_mana (Card ''Mind Stone'' ''rock'' 2 (Some [(''colorless'', 1)]) False False None) 3 3
   \<and> \<not> can_produce_mana (Card ''Llanowar Elves'' ''dork'' 1 (Some [(''green'', 1)]) False True None) 3 3
   \<and> can_produce_mana (Card ''Llanowar Elves'' ''dork'' 1 (Some [(''green'', 1)]) False True None) 3 4
   \<and> \<not> can_produce_mana (Card ''Jet Medallion'' ''reducer'' 2 None False False (Some [(''black'', 1)])) 3 4
   \<and> \<not> can_produce_mana (Card ''Filler'' ''filler'' 0 None False False None) 3 4"
  using
    can_produce_mana_by_kind [of "Card ''Temple'' ''land'' 0 (Some [(''black'', 1)]) True False None" 3 3]
    can_produce_mana_by_kind [of "Card ''Temple'' ''land'' 0 (Some [(''black'', 1)]) True False None" 3 4]
    can_produce_mana_by_kind [of "Card ''Swamp'' ''land'' 0 (Some [(''black'', 1)]) False False None" 3 3]
    can_produce_mana_by_kind [of "Card ''Mind Stone'' ''rock'' 2 (Some [(''colorless'', 1)]) False False None" 3 3]
    can_produce_mana_by_kind [of "Card ''Llanowar Elves'' ''dork'' 1 (Some [(''green'', 1)]) False True None" 3 3]
    can_produce_mana_by_kind [of "Card ''Llanowar Elves'' ''dork'' 1 (Some [(''green'', 1)]) False True None" 3 4]
    can_produce_mana_by_kind [of "Card ''Jet Medallion'' ''reducer'' 2 None False False (Some [(''black'', 1)])" 3 4]
    can_produce_mana_by_kind [of "Card ''Filler'' ''filler'' 0 None False False None" 3 4]
  by (simp add: Card_def)

section \<open>The affordability evaluator\<close>

text \<open>
  C1, as claimed, fails: \<open>can_cast_commander\<close> sums the cost reductions of every card on the
  battlefield and never looks at the kind.  With a land that carries a reduction of red as
  the only permanent and a commander cost of one red, it returns true, while the test over
  the reductions of cost reducers requires one red mana and fails.
\<close>

theorem reduction_on_a_land_counts:
  "dict_ok odd_land_cost
   \<and> list_all (\<lambda>(c, t). dict_ok (mana c) \<and> dict_ok (cost_reduction c)) (battlefield odd_land_game)
   \<and> can_cast_commander odd_land_game odd_land_cost
   \<and> \<not> claimed_can_cast odd_land_game odd_land_cost"
  by code_simp

text \<open>
  C1, amended.  For a commander cost and cost reductions that are dictionaries,
  \<open>can_cast_commander\<close> is true exactly when both tests pass: every colour of the cost other
  than \<open>colorless\<close> has available mana of that colour at least the effective cost, and the
  sum of all available mana is at least the sum of the effective costs.  The effective cost
  of a colour is the cost of that colour less the sum of the reductions of it that the
  permanents on the battlefield carry, whatever their kind, and not less than zero; a
  colour that no permanent on the battlefield reduces keeps its (non-negative) cost.
\<close>

theorem can_cast_commander_all_permanents:
  assumes cost_ok: "dict_ok commander_cost"
    and cards_ok: "\<forall>(c, t) \<in> set (battlefield g). dict_ok (cost_reduction c)"
  shows "(can_cast_commander g commander_cost \<longleftrightarrow>
            (\<forall>color \<in> set (dict_keys commander_cost).
                color \<noteq> ''colorless'' \<longrightarrow>
                dict_get (available_mana g) color 0
                  \<ge> effective_cost commander_cost (battlefield g) color)
            \<and> sum_list (dict_values (available_mana g))
                \<ge> sum_list (map (effective_cost commander_cost (battlefield g))
                              (dict_keys commander_cost)))
         \<and> (\<forall>color. 0 \<le> effective_cost commander_cost (battlefield g) color)
         \<and> (\<forall>color. (\<forall>(c, t) \<in> set (battlefield g). color \<notin> set (dict_keys (cost_reduction c)))
                \<longrightarrow> 0 \<le> dict_get commander_cost color 0
                \<longrightarrow> effective_cost commander_cost (battlefield g) color
                      = dict_get commander_cost color 0)"
proof (intro conjI allI impI)
  define r where "r = (\<lambda>color. battlefield_reduction (battlefield g) color)"
  define reductions where
    "reductions = fold (\<lambda>(c, _) r. add_items r (cost_reduction c)) (battlefield g) []"
  have red: "dict_get reductions color 0 = r color" for color
    unfolding reductions_def r_def by (rule reductions_battlefield [OF cards_ok])
  have eff: "fold (\<lambda>color e. dict_set e color (max 0 (dict_get e color 0 - dict_get reductions color 0)))
               (dict_keys commander_cost) commander_cost
             = map (\<lambda>(k, v). (k, max 0 (v - r k))) commander_cost"
    using effective_cost_map [OF cost_ok, of r] by (simp add: red)
  have keys: "dict_keys (map (\<lambda>(k, v). (k, max 0 (v - r k))) commander_cost) = dict_keys commander_cost"
    by (simp add: dict_keys_def case_prod_beta comp_def)
  have req: "effective_cost commander_cost (battlefield g) = (\<lambda>k. max 0 (dict_get commander_cost k 0 - r k))"
    by (simp add: effective_cost_def r_def fun_eq_iff)
  show "can_cast_commander g commander_cost \<longleftrightarrow>
            (\<forall>color \<in> set (dict_keys commander_cost).
                color \<noteq> ''colorless'' \<longrightarrow>
                dict_get (available_mana g) color 0
                  \<ge> effective_cost commander_cost (battlefield g) color)
            \<and> sum_list (dict_values (available_mana g))
                \<ge> sum_list (map (effective_cost commander_cost (battlefield g))
                              (dict_keys commander_cost))"
    unfolding can_cast_commander_def Let_def reductions_def [symmetric] eff keys
      sum_values_mapped [OF cost_ok] req list_ex_iff
    using dict_get_mapped [of _ commander_cost r]
    by (auto simp: not_less)
next
  fix color
  show "0 \<le> effective_cost commander_cost (battlefield g) color"
    by (simp add: effective_cost_def)
next
  fix color
  assume untargeted: "\<forall>(c, t) \<in> set (battlefield g). color \<notin> set (dict_keys (cost_reduction c))"
    and nonneg: "0 \<le> dict_get commander_cost color 0"
  have "dict_get (cost_reduction c) color 0 = 0" if "(c, t) \<in> set (battlefield g)" for c t
  proof -
    from untargeted that have "color \<notin> fst ` set (cost_reduction c)"
      by (auto simp: dict_keys_def)
    then have "map_of (cost_reduction c) color = None"
      by (simp add: map_of_eq_None_iff)
    then show ?thesis by (simp add: dict_get_def)
  qed
  then have "battlefield_reduction (battlefield g) color = 0"
    by (intro battlefield_reduction_untargeted) auto
  with nonneg show "effective_cost commander_cost (battlefield g) color
                      = dict_get commander_cost color 0"
    by (simp add: effective_cost_def)
qed

theorem can_cast_commander_all_permanents_witness:
  "dict_ok medallion_cost
   \<and> list_all (\<lambda>(c, t). dict_ok (cost_reduction c)) (battlefield medallion_game)
   \<and> can_cast_commander medallion_game medallion_cost
   \<and> effective_cost medallion_cost (battlefield medallion_game) ''black'' = 0
   \<and> effective_cost medallion_cost (battlefield medallion_game) ''red'' = 1
   \<and> dict_ok odd_land_cost
   \<and> list_all (\<lambda>(c, t). dict_ok (cost_reduction c)) (battlefield odd_land_game)
   \<and> can_cast_commander odd_land_game odd_land_cost
   \<and> effective_cost odd_land_cost (battlefield odd_land_game) ''red'' = 0"
proof -
  have h1: "dict_ok medallion_cost"
    by (simp add: medallion_cost_def dict_ok_def)
  have h2: "\<forall>(c, t) \<in> set (battlefield medallion_game). dict_ok (cost_reduction c)"
    by (simp add: medallion_game_def dict_ok_def Card_def)
  have pool: "available_mana medallion_game = [(''black'', 1), (''red'', 1), (''colorless'', 1)]"
    by (simp add: medallion_game_def available_mana_def can_produce_mana_def produce_mana_def
          add_items_def dict_get_def Card_def)
  have red: "battlefield_reduction (battlefield medallion_game) color = (if color = ''black'' then 1 else 0)"
    for color
    by (simp add: medallion_game_def battlefield_reduction_def dict_get_def Card_def)
  have eff: "effective_cost medallion_cost (battlefield medallion_game) color
             = max 0 (dict_get medallion_cost color 0 - (if color = ''black'' then 1 else 0))"
    for color
    by (simp add: effective_cost_def red)
  have keys: "dict_keys medallion_cost = [''colorless'', ''black'', ''red'']"
    by (simp add: medallion_cost_def dict_keys_def)
  have req: "effective_cost medallion_cost (battlefield medallion_game) ''colorless'' = 2"
    "effective_cost medallion_cost (battlefield medallion_game) ''black'' = 0"
    "effective_cost medallion_cost (battlefield medallion_game) ''red'' = 1"
    unfolding eff by (simp_all add: medallion_cost_def dict_get_def)
  have cast: "can_cast_commander medallion_game medallion_cost"
    unfolding can_cast_commander_all_permanents [OF h1 h2, THEN conjunct1] keys pool
    by (simp add: req dict_get_def dict_values_def)
  have k1: "dict_ok odd_land_cost"
    by (simp add: odd_land_cost_def dict_ok_def)
  have k2: "\<forall>(c, t) \<in> set (battlefield odd_land_game). dict_ok (cost_reduction c)"
    by (simp add: odd_land_game_def dict_ok_def Card_def)
  have odd_pool: "available_mana odd_land_game = []"
    by (simp add: odd_land_game_def available_mana_def can_produce_mana_def produce_mana_def
          add_items_def Card_def)
  have odd_req: "effective_cost odd_land_cost (battlefield odd_land_game) ''red'' = 0"
    by (simp add: effective_cost_def battlefield_reduction_def odd_land_game_def odd_land_cost_def
          dict_get_def Card_def)
  have odd_keys: "dict_keys odd_land_cost = [''red'']"
    by (simp add: odd_land_cost_def dict_keys_def)
  have odd_cast: "can_cast_commander odd_land_game odd_land_cost"
    unfolding can_cast_commander_all_permanents [OF k1 k2, THEN conjunct1] odd_keys odd_pool
    by (simp add: odd_req dict_get_def dict_values_def)
  from h2 have l2: "list_all (\<lambda>(c, t). dict_ok (cost_reduction c)) (battlefield medallion_game)"
    by (simp add: list_all_iff)
  from k2 have m2: "list_all (\<lambda>(c, t). dict_ok (cost_reduction c)) (battlefield odd_land_game)"
    by (simp add: list_all_iff)
  from h1 l2 cast req k1 m2 odd_cast odd_req show ?thesis
    by simp
qed

section \<open>Total mana\<close>

text \<open>
  C3.  \<open>available_mana\<close> of version 3 is computed from the battlefield at each call and sums
  the mana of the permanents that can produce on the current turn (lemmas
  \<open>available_mana_sums\<close> and \<open>entry_turn_excluded\<close>).  The total of version 4
  (lines 131 to 133 of \<open>simulate_game\<close>) counts every land on the battlefield: a conditional
  land that enters tapped onto an empty battlefield is counted on its entry turn, and with
  a commander cost of 1 the trial casts on turn 1 with that land alone.  In version 3 a
  land that entered tapped this turn gives no mana, and a commander of cost 1 is not cast.
\<close>

theorem tapped_land_counted_v4:
  "play check_lands 0 []
   \<and> total_mana_v4 check_lands [0] = 1
   \<and> fst (simulate_game (\<lambda>xs. xs) check_lands [0..<8] 1 15) = Some 1
   \<and> available_mana temple_game = []
   \<and> \<not> can_cast_commander temple_game [(''colorless'', 1)]"
  by code_simp

section \<open>Scenario A: a deck of a hundred lands\<close>

text \<open>
  C4.  Let the template be a hundred lands that each produce one colourless mana and enter
  untapped, the commander cost six colourless, and the shuffles any permutations.  Then for
  every maximum turn count of at least six the engine of version 3 returns turn 6 in every
  trial; \<open>run_simulation\<close> (whose engine runs with the default maximum of twenty turns)
  returns, for a positive trial count, the distribution that maps 6 to the trial count and
  holds no other turn, the average 6 and the trial count as the number of successes; and
  the engine of version 1 on \<open>build_deck(100, 0, 0)\<close> with its commander cost 6 returns
  turn 6 as well.  With no trial to run the distribution is empty.
\<close>

theorem all_lands_cast_on_turn_six:
  assumes fair: "fair_shuffle shuf" and fair_v1: "fair_shuffle shuf_v1"
    and size: "length template = 100"
    and lands: "list_all colorless_land template"
    and turns: "6 \<le> max_turns"
  shows "(\<exists>g. Game (shuf i) template = Inr g
              \<and> fst (play_until_commander g [(''colorless'', 6)] max_turns) = Some 6)
         \<and> run_simulation shuf template [(''colorless'', 6)] trials
             = Inr (if trials \<le> 0 then [] else [(6, trials)],
                    if trials \<le> 0 then None else Some 6,
                    if trials \<le> 0 then 0 else trials)
         \<and> (\<exists>g. Game_v1 (shuf_v1 i) (build_deck 100 0 0) = Inr g
                \<and> fst (play_until_commander_v1 g 6 max_turns) = Some 6)"
proof (intro conjI)
  have start: "\<exists>g. Game (shuf j) template = Inr g \<and> lands_only g \<and> battlefield g = []" for j
    using fair size by (intro lands_only_Game [OF _ lands]) (simp_all add: fair_shuffle_def)
  have six: "\<exists>g. Game (shuf j) template = Inr g
                  \<and> fst (play_until_commander g [(''colorless'', 6)] m) = Some 6"
    if "6 \<le> m" for j m
  proof -
    from start [of j] obtain g where g: "Game (shuf j) template = Inr g" "lands_only g" "battlefield g = []"
      by blast
    from lands_only_cast [OF g(2) _ that] g(3)
    have "fst (play_until_commander g [(''colorless'', 6)] m) = Some 6" by simp
    with g(1) show ?thesis by blast
  qed
  from six [OF turns] show "\<exists>g. Game (shuf i) template = Inr g
              \<and> fst (play_until_commander g [(''colorless'', 6)] max_turns) = Some 6" .
  have "trial_result shuf template [(''colorless'', 6)] j = Inr (Some 6)" for j
    using six [of 20 j] by (auto simp: trial_result_def)
  then show "run_simulation shuf template [(''colorless'', 6)] trials
             = Inr (if trials \<le> 0 then [] else [(6, trials)],
                    if trials \<le> 0 then None else Some 6,
                    if trials \<le> 0 then 0 else trials)"
    by (intro run_simulation_all_six) simp
  from fair_v1 have "mset (shuf_v1 i (build_deck 100 0 0)) = mset (build_deck 100 0 0)"
    by (simp add: fair_shuffle_def)
  with lands_only_Game_v1 [of "shuf_v1 i"] obtain g where
    g: "Game_v1 (shuf_v1 i) (build_deck 100 0 0) = Inr g" "lands_only_v1 g" "battlefield_v1 g = []"
    by blast
  from lands_only_cast_v1 [OF g(2) _ turns] g(3)
  have "fst (play_until_commander_v1 g 6 max_turns) = Some 6" by simp
  with g(1) show "\<exists>g. Game_v1 (shuf_v1 i) (build_deck 100 0 0) = Inr g
                \<and> fst (play_until_commander_v1 g 6 max_turns) = Some 6"
    by blast
qed

theorem all_lands_cast_on_turn_six_witness:
  "fair_shuffle (\<lambda>i. rev :: card list \<Rightarrow> card list)
   \<and> fair_shuffle (\<lambda>i. rev :: card_v1 list \<Rightarrow> card_v1 list)
   \<and> length hundred_lands = 100 \<and> list_all colorless_land hundred_lands
   \<and> (\<exists>g. Game rev hundred_lands = Inr g
          \<and> fst (play_until_commander g [(''colorless'', 6)] 20) = Some 6)
   \<and> run_simulation (\<lambda>i. rev) hundred_lands [(''colorless'', 6)] 1000
       = Inr ([(6, 1000)], Some 6, 1000)
   \<and> (\<exists>g. Game_v1 rev (build_deck 100 0 0) = Inr g
          \<and> fst (play_until_commander_v1 g 6 20) = Some 6)"
proof -
  have h1: "fair_shuffle (\<lambda>i. rev :: card list \<Rightarrow> card list)"
    and h2: "fair_shuffle (\<lambda>i. rev :: card_v1 list \<Rightarrow> card_v1 list)"
    by (simp_all add: fair_shuffle_def)
  have h3: "length hundred_lands = 100"
    by (simp add: hundred_lands_def)
  have h4: "list_all colorless_land hundred_lands"
    by (simp add: hundred_lands_def list_all_iff colorless_land_def Card_def)
  have h5: "(6 :: int) \<le> 20" by simp
  from all_lands_cast_on_turn_six [OF h1 h2 h3 h4 h5, where trials = 1000]
  have "(\<exists>g. Game rev hundred_lands = Inr g
          \<and> fst (play_until_commander g [(''colorless'', 6)] 20) = Some 6)
   \<and> run_simulation (\<lambda>i. rev) hundred_lands [(''colorless'', 6)] 1000
       = Inr ([(6, 1000)], Some 6, 1000)
   \<and> (\<exists>g. Game_v1 rev (build_deck 100 0 0) = Inr g
          \<and> fst (play_until_commander_v1 g 6 20) = Some 6)"
    by simp
  with h1 h2 h3 h4 show ?thesis by blast
qed

section \<open>The average over no successful trial\<close>

text \<open>
  C5.  The claim asks for a "no data" signal when no trial succeeds.  \<open>run_simulation\<close> of
  version 3 gives \<open>None\<close> then (lemma \<open>run_simulation_no_data\<close>).  \<open>run_simulation\<close> of
  version 1 divides by the number of successes without a test: on a deck of a hundred
  fillers no trial succeeds, whatever the shuffles and the trial count are, and the
  division raises \<open>ZeroDivisionError\<close>.
\<close>

theorem average_of_nothing_v1:
  assumes "fair_shuffle shuf"
  shows "run_simulation_v1 shuf trials 0 0 100 = Inl ZeroDivisionError"
proof -
  have "\<exists>g. Game_v1 (shuf i) (build_deck 0 0 100) = Inr g \<and> barren_v1 g" for i
    using assms by (intro barren_Game_v1) (simp add: fair_shuffle_def)
  then have "trial_loop_v1 shuf (build_deck 0 0 100) [0..<nat trials] [] = Inr []"
    by (intro trial_loop_v1_barren) simp
  then show ?thesis
    by (simp add: run_simulation_v1_def)
qed

theorem average_of_nothing_v1_witness:
  "fair_shuffle (\<lambda>i. rev :: card_v1 list \<Rightarrow> card_v1 list)
   \<and> run_simulation_v1 (\<lambda>i. rev) 1000 0 0 100 = Inl ZeroDivisionError"
proof -
  have h: "fair_shuffle (\<lambda>i. rev :: card_v1 list \<Rightarrow> card_v1 list)"
    by (simp add: fair_shuffle_def)
  from average_of_nothing_v1 [OF h, of 1000] h show ?thesis by simp
qed

section \<open>Termination of a trial\<close>

text \<open>
  C6.  From any game, with any commander cost and any maximum turn count, the turn loop
  returns after some number \<open>k\<close> of runs of the turn body, where \<open>k\<close> is at most the turns
  left up to the maximum (the maximum itself for a fresh game, whose turn is 0) and equal
  to it when the trial times out.  The deployment loop of a turn returns after \<open>p\<close> passes
  that deploy a card, each moving one card from the hand to the battlefield, so \<open>p\<close> is at
  most the size of the hand; when it returns, no card in hand is deployable.
\<close>

theorem trial_terminates:
  "(\<exists>k. snd (play_until_commander g commander_cost max_turns) = (turn_body ^^ k) g
         \<and> int k \<le> max 0 (max_turns - turn g)
         \<and> (fst (play_until_commander g commander_cost max_turns) = None
                \<longrightarrow> int k = max 0 (max_turns - turn g)))
   \<and> (\<exists>p \<le> length (hand g).
          length (hand (play_permanents g)) + p = length (hand g)
          \<and> length (battlefield (play_permanents g)) = length (battlefield g) + p)
   \<and> find (deployable (play_permanents g)) (hand (play_permanents g)) = None"
proof (intro conjI)
  from play_until_commander_run [of g commander_cost max_turns]
  show "\<exists>k. snd (play_until_commander g commander_cost max_turns) = (turn_body ^^ k) g
         \<and> int k \<le> max 0 (max_turns - turn g)
         \<and> (fst (play_until_commander g commander_cost max_turns) = None
                \<longrightarrow> int k = max 0 (max_turns - turn g))"
    by (auto split: option.splits)
next
  define p where "p = length (battlefield (play_permanents g)) - length (battlefield g)"
  from play_permanents_passes [of g]
  have "p \<le> length (hand g) \<and> length (hand (play_permanents g)) + p = length (hand g)
        \<and> length (battlefield (play_permanents g)) = length (battlefield g) + p"
    by (simp add: p_def)
  then show "\<exists>p \<le> length (hand g).
          length (hand (play_permanents g)) + p = length (hand g)
          \<and> length (battlefield (play_permanents g)) = length (battlefield g) + p"
    by blast
next
  show "find (deployable (play_permanents g)) (hand (play_permanents g)) = None"
    by (rule play_permanents_settled)
qed

theorem trial_terminates_witness:
  "fst (play_until_commander filler_start [(''colorless'', 1)] 3) = None
   \<and> (\<exists>k. snd (play_until_commander filler_start [(''colorless'', 1)] 3)
               = (turn_body ^^ k) filler_start \<and> k = 3)"
proof -
  have h: "fst (play_until_commander filler_start [(''colorless'', 1)] 3) = None"
    by code_simp
  have t0: "turn filler_start = 0"
    by (simp add: filler_start_def)
  from trial_terminates [of filler_start "[(''colorless'', 1)]" 3] h t0
  have "\<exists>k. snd (play_until_commander filler_start [(''colorless'', 1)] 3)
               = (turn_body ^^ k) filler_start \<and> int k = 3"
    by auto
  with h show ?thesis by auto
qed

section \<open>Conservation of cards\<close>

text \<open>
  C7.  In a trial started from a shuffle of the template, the cards of library, hand and
  battlefield together are, after every number of turns, the multiset of the template, and
  the three sizes add up to the size of the template.  The state in which the turn loop
  returns is one of these states.  Drawing, the land drop and the deployment loop each leave
  the multiset of the three zones as it is.
\<close>

theorem zones_conserved:
  assumes shuffled: "mset (shuffle template) = mset template"
    and start: "Game shuffle template = Inr g0"
  shows "(\<forall>k. zone_cards ((turn_body ^^ k) g0) = mset template
              \<and> length (deck ((turn_body ^^ k) g0)) + length (hand ((turn_body ^^ k) g0))
                  + length (battlefield ((turn_body ^^ k) g0)) = length template)
         \<and> (\<exists>k. snd (play_until_commander g0 commander_cost max_turns) = (turn_body ^^ k) g0)
         \<and> (\<forall>g. zone_cards (draw g) = zone_cards g
                 \<and> zone_cards (snd (play_land g)) = zone_cards g
                 \<and> zone_cards (play_permanents g) = zone_cards g)"
proof (intro conjI allI)
  fix k
  show cards: "zone_cards ((turn_body ^^ k) g0) = mset template"
    by (simp add: zone_cards_turns zone_cards_Game [OF shuffled start])
  have "size (zone_cards ((turn_body ^^ k) g0)) = size (mset template)"
    by (simp only: cards)
  then show "length (deck ((turn_body ^^ k) g0)) + length (hand ((turn_body ^^ k) g0))
               + length (battlefield ((turn_body ^^ k) g0)) = length template"
    by (simp add: zone_cards_size)
next
  show "\<exists>k. snd (play_until_commander g0 commander_cost max_turns) = (turn_body ^^ k) g0"
    using play_until_commander_run [of g0 commander_cost max_turns] by blast
qed (simp_all add: zone_cards_draw zone_cards_play_land zone_cards_play_permanents)

theorem zones_conserved_witness:
  "mset (rev mixed_deck) = mset mixed_deck
   \<and> Game rev mixed_deck = Inr mixed_start
   \<and> zone_cards ((turn_body ^^ 2) mixed_start) = mset mixed_deck
   \<and> length (deck ((turn_body ^^ 2) mixed_start)) + length (hand ((turn_body ^^ 2) mixed_start))
       + length (battlefield ((turn_body ^^ 2) mixed_start)) = length mixed_deck"
proof -
  have h1: "mset (rev mixed_deck) = mset mixed_deck"
    by simp
  have h2: "Game rev mixed_deck = Inr mixed_start"
    by code_simp
  from zones_conserved [OF h1 h2] have
    "zone_cards ((turn_body ^^ 2) mixed_start) = mset mixed_deck
     \<and> length (deck ((turn_body ^^ 2) mixed_start)) + length (hand ((turn_body ^^ 2) mixed_start))
         + length (battlefield ((turn_body ^^ 2) mixed_start)) = length mixed_deck"
    by blast
  with h1 h2 show ?thesis by blast
qed

section \<open>The deck template\<close>

text \<open>
  C8.  \<open>Game.__init__\<close> of versions 1 to 3 shuffles a copy of the template.
  \<open>simulate_game\<close> of version 4 shuffles the list it is given, which is the one list
  \<open>run_simulations\<close> builds and hands to every trial: after one trial with the reversing
  shuffle the template is in reverse order.  It also assigns to the \<open>summoning_sick\<close>
  attribute of the dorks it deploys, which are the template's own objects: the dork of the
  second store is built sick and is not sick after one trial.
\<close>

theorem template_mutated_v4:
  "snd build_deck_v4 = [0..<100]
   \<and> snd (snd (run_simulations (\<lambda>i. rev) 1)) = rev [0..<100]
   \<and> rev [0..<100] \<noteq> [0..<(100 :: nat)]
   \<and> summoning_sick_v4 (dork_store ! 1)
   \<and> \<not> summoning_sick_v4 (fst (snd (simulate_game (\<lambda>xs. xs) dork_store [0..<8] 6 15)) ! 1)"
proof (intro conjI)
  show deck: "snd build_deck_v4 = [0..<100]"
    by (simp add: build_deck_v4_def)
  show "snd (snd (run_simulations (\<lambda>i. rev) 1)) = rev [0..<100]"
    by (simp only: run_simulations_one_trial deck)
  have "hd (rev [0..<(100 :: nat)]) \<noteq> hd [0..<100]"
    by (simp add: hd_rev upt_conv_Cons)
  then show "rev [0..<100] \<noteq> [0..<(100 :: nat)]"
    by metis
  show "summoning_sick_v4 (dork_store ! 1)"
    by code_simp
  show "\<not> summoning_sick_v4 (fst (snd (simulate_game (\<lambda>xs. xs) dork_store [0..<8] 6 15)) ! 1)"
    by code_simp
qed

section \<open>Malformed configuration\<close>

text \<open>
  C9, as claimed, fails: negative card counts, a trial count of zero or less and a maximum
  turn count of zero are accepted and the run returns a result; the empty deck ends the
  first trial with \<open>IndexError\<close>.
\<close>

theorem malformed_configuration_runs:
  "build_deck (- 3) (- 2) 8 = replicate 8 Filler_v1
   \<and> run_simulation (\<lambda>i. rev) mixed_deck medallion_cost 0 = Inr ([], None, 0)
   \<and> run_simulation (\<lambda>i. rev) mixed_deck medallion_cost (- 5) = Inr ([], None, 0)
   \<and> play_until_commander mixed_start medallion_cost 0 = (None, mixed_start)
   \<and> run_simulation (\<lambda>i. rev) [] medallion_cost 1 = Inl IndexError"
  by code_simp

text \<open>
  C9, amended.  No version checks its configuration.  \<open>build_deck\<close> builds no card of a
  kind whose count is negative.  \<open>run_simulation\<close> of version 3 with a trial count of zero
  or less runs no trial and returns the empty distribution, the average \<open>None\<close> and the
  count 0.  \<open>play_until_commander\<close> on a fresh game with a maximum turn count of zero or
  less returns \<open>None\<close> and plays no turn.  A deck of fewer than seven cards, the empty
  deck among them, makes \<open>Game.__init__\<close> raise \<open>IndexError\<close>, and so \<open>run_simulation\<close>
  with a positive trial count raises it in its first trial.
\<close>

theorem configuration_unchecked:
  "build_deck lands rocks fillers = build_deck (max 0 lands) (max 0 rocks) (max 0 fillers)
   \<and> (trials \<le> 0 \<longrightarrow> run_simulation shuf template commander_cost trials = Inr ([], None, 0))
   \<and> (max_turns \<le> 0 \<longrightarrow> turn g = 0 \<longrightarrow>
        play_until_commander g commander_cost max_turns = (None, g))
   \<and> (length (shuffle template) < 7 \<longrightarrow> Game shuffle template = Inl IndexError)
   \<and> (length (old_shuffle old_template) < 7 \<longrightarrow> Game_v1 old_shuffle old_template = Inl IndexError)
   \<and> (0 < trials \<longrightarrow> length (shuf 0 template) < 7 \<longrightarrow>
        run_simulation shuf template commander_cost trials = Inl IndexError)"
proof (intro conjI impI)
  show "build_deck lands rocks fillers = build_deck (max 0 lands) (max 0 rocks) (max 0 fillers)"
    by (simp add: build_deck_def max_def)
next
  assume "trials \<le> 0"
  then show "run_simulation shuf template commander_cost trials = Inr ([], None, 0)"
    by (simp add: run_simulation_def Counter_def)
next
  assume "max_turns \<le> 0" and "turn g = 0"
  then show "play_until_commander g commander_cost max_turns = (None, g)"
    by (subst play_until_commander.simps) simp
next
  assume "length (shuffle template) < 7"
  then show "Game shuffle template = Inl IndexError"
    by (simp add: Game_result)
next
  assume "length (old_shuffle old_template) < 7"
  then show "Game_v1 old_shuffle old_template = Inl IndexError"
    by (simp add: Game_v1_result)
next
  assume pos: "0 < trials" and short: "length (shuf 0 template) < 7"
  from pos have "[0..<nat trials] = 0 # [1..<nat trials]"
    by (simp add: upt_conv_Cons)
  moreover from short have "Game (shuf 0) template = Inl IndexError"
    by (simp add: Game_result)
  ultimately show "run_simulation shuf template commander_cost trials = Inl IndexError"
    by (simp add: run_simulation_def)
qed

theorem configuration_unchecked_witness:
  "build_deck (- 3) (- 2) 8 = build_deck 0 0 8
   \<and> run_simulation (\<lambda>i. rev) mixed_deck medallion_cost (- 5) = Inr ([], None, 0)
   \<and> play_until_commander mixed_start medallion_cost 0 = (None, mixed_start)
   \<and> Game rev [] = Inl IndexError
   \<and> Game_v1 rev (build_deck (- 1) 0 0) = Inl IndexError
   \<and> run_simulation (\<lambda>i. rev) (take 6 mixed_deck) medallion_cost 1000 = Inl IndexError"
proof -
  have t0: "turn mixed_start = 0"
    by (simp add: mixed_start_def)
  have short: "length (rev (take 6 mixed_deck)) < 7"
    by simp
  have short_v1: "length (rev (build_deck (- 1) 0 0)) < 7"
    by (simp add: build_deck_def)
  from configuration_unchecked [where lands = "- 3" and rocks = "- 2" and fillers = 8
      and trials = "- 5" and shuf = "\<lambda>i. rev" and template = "[]"
      and commander_cost = medallion_cost and max_turns = 0 and g = mixed_start
      and shuffle = rev and old_shuffle = rev and old_template = "build_deck (- 1) 0 0"]
    configuration_unchecked [where trials = 1000 and shuf = "\<lambda>i. rev"
      and template = "take 6 mixed_deck" and commander_cost = medallion_cost]
    configuration_unchecked [where trials = "- 5" and shuf = "\<lambda>i. rev"
      and template = mixed_deck and commander_cost = medallion_cost]
    t0 short short_v1
  show ?thesis by simp
qed

section \<open>The engine never returns turn 0\<close>

text \<open>
  C10.  Started from a fresh game (turn 0), the engine of version 3, and likewise the
  engine of version 1, returns \<open>None\<close> or a turn \<open>t\<close> with \<open>1 \<le> t \<le> max_turns\<close>, which is
  truthy.  So when \<open>run_simulation\<close> of version 3 returns, the number of successes it
  reports is the number of trials whose result is not \<open>None\<close>, and its counts are those of
  their turns.  When every trial can be set up, the trial loop of version 3 and the trial
  loop of version 1 each end with exactly the turns of the trials whose result is not
  \<open>None\<close>, in the order of the trials; \<open>run_simulation\<close> of version 3 returns their counts
  and their number, and \<open>run_simulation\<close> of version 1 returns their counts and their
  average, or fails in the division when there is none.
\<close>

theorem engine_never_returns_zero:
  "(turn g = 0 \<longrightarrow>
      fst (play_until_commander g commander_cost max_turns) = None
      \<or> (\<exists>t. fst (play_until_commander g commander_cost max_turns) = Some t
              \<and> 1 \<le> t \<and> t \<le> max_turns \<and> truthy (Some t)))
   \<and> (turn_v1 old_g = 0 \<longrightarrow>
        fst (play_until_commander_v1 old_g old_cost max_turns) = None
        \<or> (\<exists>t. fst (play_until_commander_v1 old_g old_cost max_turns) = Some t
                \<and> 1 \<le> t \<and> t \<le> max_turns \<and> truthy (Some t)))
   \<and> (run_simulation shuf template commander_cost trials = Inr (counts, avg, n) \<longrightarrow>
        n = int (length (filter (\<lambda>i. trial_result shuf template commander_cost i \<noteq> Inr None)
                           [0..<nat trials]))
        \<and> counts = Counter (successes shuf template commander_cost [0..<nat trials]))
   \<and> ((\<forall>i < nat trials. \<exists>r. trial_result shuf template commander_cost i = Inr r) \<longrightarrow>
        trial_loop shuf template commander_cost [0..<nat trials] []
          = Inr (successes shuf template commander_cost [0..<nat trials])
        \<and> (\<exists>a. run_simulation shuf template commander_cost trials
                 = Inr (Counter (successes shuf template commander_cost [0..<nat trials]), a,
                        int (length (filter (\<lambda>i. trial_result shuf template commander_cost i \<noteq> Inr None)
                                       [0..<nat trials])))))
   \<and> ((\<forall>i < nat trials. \<exists>r. trial_result_v1 old_shuf old_template i = Inr r) \<longrightarrow>
        trial_loop_v1 old_shuf old_template [0..<nat trials] []
          = Inr (successes_v1 old_shuf old_template [0..<nat trials])
        \<and> length (successes_v1 old_shuf old_template [0..<nat trials])
            = length (filter (\<lambda>i. trial_result_v1 old_shuf old_template i \<noteq> Inr None)
                        [0..<nat trials]))
   \<and> ((\<forall>i < nat trials. \<exists>r. trial_result_v1 old_shuf (build_deck lands rocks fillers) i = Inr r) \<longrightarrow>
        run_simulation_v1 old_shuf trials lands rocks fillers
          = (if successes_v1 old_shuf (build_deck lands rocks fillers) [0..<nat trials] = []
             then Inl ZeroDivisionError
             else Inr (Counter (successes_v1 old_shuf (build_deck lands rocks fillers) [0..<nat trials]),
                       of_int (sum_list (successes_v1 old_shuf (build_deck lands rocks fillers)
                                           [0..<nat trials]))
                       / of_int (int (length (successes_v1 old_shuf (build_deck lands rocks fillers)
                                                [0..<nat trials]))))))"
proof (intro conjI impI)
  assume "turn g = 0"
  then show "fst (play_until_commander g commander_cost max_turns) = None
      \<or> (\<exists>t. fst (play_until_commander g commander_cost max_turns) = Some t
              \<and> 1 \<le> t \<and> t \<le> max_turns \<and> truthy (Some t))"
    using engine_range [of g commander_cost max_turns]
    by (cases "fst (play_until_commander g commander_cost max_turns)") (auto simp: truthy_def)
next
  assume "turn_v1 old_g = 0"
  then show "fst (play_until_commander_v1 old_g old_cost max_turns) = None
        \<or> (\<exists>t. fst (play_until_commander_v1 old_g old_cost max_turns) = Some t
                \<and> 1 \<le> t \<and> t \<le> max_turns \<and> truthy (Some t))"
    using engine_range_v1 [of old_g old_cost max_turns]
    by (cases "fst (play_until_commander_v1 old_g old_cost max_turns)") (auto simp: truthy_def)
next
  assume run: "run_simulation shuf template commander_cost trials = Inr (counts, avg, n)"
  then obtain results where loop: "trial_loop shuf template commander_cost [0..<nat trials] [] = Inr results"
    and out: "counts = Counter results" "n = int (length results)"
    by (auto simp: run_simulation_def split: sum.splits)
  from trial_loop_collect [OF loop]
  have res: "results = successes shuf template commander_cost [0..<nat trials]"
    and ok: "\<forall>i \<in> set [0..<nat trials]. \<exists>r. trial_result shuf template commander_cost i = Inr r"
    by simp_all
  show "n = int (length (filter (\<lambda>i. trial_result shuf template commander_cost i \<noteq> Inr None)
                           [0..<nat trials]))"
    using successes_count [OF ok] by (simp add: out res)
  show "counts = Counter (successes shuf template commander_cost [0..<nat trials])"
    by (simp add: out res)
next
  assume "\<forall>i < nat trials. \<exists>r. trial_result shuf template commander_cost i = Inr r"
  then have ok: "\<forall>i \<in> set [0..<nat trials]. \<exists>r. trial_result shuf template commander_cost i = Inr r"
    by simp
  from trial_loop_total [OF ok, of "[]"]
  show loop: "trial_loop shuf template commander_cost [0..<nat trials] []
          = Inr (successes shuf template commander_cost [0..<nat trials])"
    by simp
  show "\<exists>a. run_simulation shuf template commander_cost trials
                 = Inr (Counter (successes shuf template commander_cost [0..<nat trials]), a,
                        int (length (filter (\<lambda>i. trial_result shuf template commander_cost i \<noteq> Inr None)
                                       [0..<nat trials])))"
    by (simp add: run_simulation_def loop successes_count [OF ok])
next
  assume "\<forall>i < nat trials. \<exists>r. trial_result_v1 old_shuf old_template i = Inr r"
  then have ok: "\<forall>i \<in> set [0..<nat trials]. \<exists>r. trial_result_v1 old_shuf old_template i = Inr r"
    by simp
  from trial_loop_v1_collect [OF ok, of "[]"]
  show "trial_loop_v1 old_shuf old_template [0..<nat trials] []
          = Inr (successes_v1 old_shuf old_template [0..<nat trials])"
    by simp
  show "length (successes_v1 old_shuf old_template [0..<nat trials])
            = length (filter (\<lambda>i. trial_result_v1 old_shuf old_template i \<noteq> Inr None)
                        [0..<nat trials])"
    by (rule successes_v1_count [OF ok])
next
  assume "\<forall>i < nat trials. \<exists>r. trial_result_v1 old_shuf (build_deck lands rocks fillers) i = Inr r"
  then have ok: "\<forall>i \<in> set [0..<nat trials].
                   \<exists>r. trial_result_v1 old_shuf (build_deck lands rocks fillers) i = Inr r"
    by simp
  from trial_loop_v1_collect [OF ok, of "[]"]
  have "trial_loop_v1 old_shuf (build_deck lands rocks fillers) [0..<nat trials] []
          = Inr (successes_v1 old_shuf (build_deck lands rocks fillers) [0..<nat trials])"
    by simp
  then show "run_simulation_v1 old_shuf trials lands rocks fillers
          = (if successes_v1 old_shuf (build_deck lands rocks fillers) [0..<nat trials] = []
             then Inl ZeroDivisionError
             else Inr (Counter (successes_v1 old_shuf (build_deck lands rocks fillers) [0..<nat trials]),
                       of_int (sum_list (successes_v1 old_shuf (build_deck lands rocks fillers)
                                           [0..<nat trials]))
                       / of_int (int (length (successes_v1 old_shuf (build_deck lands rocks fillers)
                                                [0..<nat trials])))))"
    by (simp add: run_simulation_v1_def)
qed

theorem engine_never_returns_zero_witness:
  "turn mixed_start = 0
   \<and> fst (play_until_commander mixed_start medallion_cost 20) = Some 3
   \<and> turn_v1 lands_start_v1 = 0
   \<and> fst (play_until_commander_v1 lands_start_v1 6 20) = Some 6
   \<and> truthy (Some 3) \<and> truthy (Some 6)
   \<and> run_simulation (\<lambda>i. rev) mixed_deck medallion_cost 2 = Inr ([(3, 2)], Some 3, 2)
   \<and> length (filter (\<lambda>i. trial_result (\<lambda>i. rev) mixed_deck medallion_cost i \<noteq> Inr None) [0..<2]) = 2
   \<and> trial_loop (\<lambda>i. rev) mixed_deck medallion_cost [0..<2] [] = Inr [3, 3]
   \<and> trial_loop_v1 (\<lambda>i. rev) (build_deck 10 0 0) [0..<2] [] = Inr [6, 6]
   \<and> length (filter (\<lambda>i. trial_result_v1 (\<lambda>i. rev) (build_deck 10 0 0) i \<noteq> Inr None) [0..<2]) = 2
   \<and> run_simulation_v1 (\<lambda>i. rev) 2 10 0 0 = Inr ([(6, 2)], 6)"
proof -
  have h1: "turn mixed_start = 0"
    by (simp add: mixed_start_def)
  have h2: "turn_v1 lands_start_v1 = 0"
    by (simp add: lands_start_v1_def)
  have h3: "run_simulation (\<lambda>i. rev) mixed_deck medallion_cost 2 = Inr ([(3, 2)], Some 3, 2)"
    by code_simp
  have e1: "fst (play_until_commander mixed_start medallion_cost 20) = Some 3"
    by code_simp
  have e2: "fst (play_until_commander_v1 lands_start_v1 6 20) = Some 6"
    by code_simp
  have closed: "(case Game rev mixed_deck of Inl e \<Rightarrow> Inl e
                 | Inr g \<Rightarrow> Inr (fst (play_until_commander g medallion_cost 20))) = Inr (Some 3)"
    by code_simp
  have tr: "trial_result (\<lambda>i. rev) mixed_deck medallion_cost i = Inr (Some 3)" for i
    by (simp add: trial_result_def closed)
  have closed_v1: "(case Game_v1 rev (build_deck 10 0 0) of Inl e \<Rightarrow> Inl e
                    | Inr g \<Rightarrow> Inr (fst (play_until_commander_v1 g 6 20))) = Inr (Some 6)"
    by code_simp
  have tr_v1: "trial_result_v1 (\<lambda>i. rev) (build_deck 10 0 0) i = Inr (Some 6)" for i
    by (simp add: trial_result_v1_def closed_v1)
  have two: "[0..<nat 2] = [0, 1]" "[0..<2] = [0, Suc 0]"
    by (simp_all add: upt_conv_Cons)
  have succ: "successes (\<lambda>i. rev) mixed_deck medallion_cost [0, 1] = [3, 3]"
    by (simp add: successes_def tr)
  have succ_v1: "successes_v1 (\<lambda>i. rev) (build_deck 10 0 0) [0, 1] = [6, 6]"
    by (simp add: successes_v1_def tr_v1)
  have h4: "\<forall>i < nat 2. \<exists>r. trial_result (\<lambda>i. rev) mixed_deck medallion_cost i = Inr r"
    by (simp add: tr)
  have h5: "\<forall>i < nat 2. \<exists>r. trial_result_v1 (\<lambda>i. rev) (build_deck 10 0 0) i = Inr r"
    by (simp add: tr_v1)
  have counter: "Counter [6, 6] = [(6, 2)]"
    by (simp add: Counter_def dict_get_def)
  from engine_never_returns_zero [where g = mixed_start and commander_cost = medallion_cost
      and max_turns = 20 and old_g = lands_start_v1 and old_cost = 6
      and shuf = "\<lambda>i. rev" and template = mixed_deck and trials = 2
      and counts = "[(3, 2)]" and avg = "Some 3" and n = 2
      and old_shuf = "\<lambda>i. rev" and old_template = "build_deck 10 0 0"
      and lands = 10 and rocks = 0 and fillers = 0]
    h1 h2 h3 h4 h5 e1 e2
  have "truthy (Some 3) \<and> truthy (Some 6)
        \<and> length (filter (\<lambda>i. trial_result (\<lambda>i. rev) mixed_deck medallion_cost i \<noteq> Inr None) [0, 1]) = 2
        \<and> trial_loop (\<lambda>i. rev) mixed_deck medallion_cost [0, 1] [] = Inr [3, 3]
        \<and> trial_loop_v1 (\<lambda>i. rev) (build_deck 10 0 0) [0, 1] [] = Inr [6, 6]
        \<and> length (filter (\<lambda>i. trial_result_v1 (\<lambda>i. rev) (build_deck 10 0 0) i \<noteq> Inr None) [0, 1]) = 2
        \<and> run_simulation_v1 (\<lambda>i. rev) 2 10 0 0 = Inr ([(6, 2)], 6)"
    unfolding two succ succ_v1 counter by simp
  with h1 h2 h3 e1 e2 show ?thesis
    unfolding two by simp
qed

end
